theory Spec2Isabelle
  imports Main
begin

section \<open>Values shared by the models and the routes\<close>

text \<open>
  Document identifiers (\<open>_id\<close>, ObjectId) are natural numbers, the value of the twelve
  bytes of the id. The validator \<open>isMongoId\<close> accepts a string of 24 hexadecimal digits.
  The ObjectId cast of the ODM accepts such a string and also a string of 12 characters,
  which it reads as the twelve bytes themselves. Dates are milliseconds since the epoch.
  A path missing from a document (\<open>undefined\<close> or \<open>null\<close>) is \<open>None\<close>.
\<close>

type_synonym oid = nat

datatype status = Todo | InProgress | Completed | Expired
datatype priority = Low | Medium | High
datatype category = Bug | Feature | Improvement
datatype role = Admin | Manager | Member

fun status_name :: "status \<Rightarrow> string" where
  "status_name Todo = ''Todo''"
| "status_name InProgress = ''In Progress''"
| "status_name Completed = ''Completed''"
| "status_name Expired = ''Expired''"

definition status_of :: "string \<Rightarrow> status option" where
  "status_of s =
     (if s = ''Todo'' then Some Todo
      else if s = ''In Progress'' then Some InProgress
      else if s = ''Completed'' then Some Completed
      else if s = ''Expired'' then Some Expired
      else None)"

fun priority_name :: "priority \<Rightarrow> string" where
  "priority_name Low = ''Low''"
| "priority_name Medium = ''Medium''"
| "priority_name High = ''High''"

definition priority_of :: "string \<Rightarrow> priority option" where
  "priority_of s =
     (if s = ''Low'' then Some Low
      else if s = ''Medium'' then Some Medium
      else if s = ''High'' then Some High
      else None)"

fun category_name :: "category \<Rightarrow> string" where
  "category_name Bug = ''Bug''"
| "category_name Feature = ''Feature''"
| "category_name Improvement = ''Improvement''"

definition category_of :: "string \<Rightarrow> category option" where
  "category_of s =
     (if s = ''Bug'' then Some Bug
      else if s = ''Feature'' then Some Feature
      else if s = ''Improvement'' then Some Improvement
      else None)"

subsection \<open>Request bodies\<close>

text \<open>
  A JSON body is the list of its entries, in the order of \<open>Object.keys\<close>. The values the
  routes read are strings and \<open>null\<close>; numbers, booleans, arrays and nested objects are
  outside the embedding. \<open>body_get b k\<close> is \<open>req.body[k]\<close>, \<open>None\<close> when the key is absent
  (\<open>undefined\<close>). An object holds a key once; in a list that repeats a key the first
  entry is the value of the key everywhere.
\<close>

datatype jval = JNull | JStr string

type_synonym body = "(string \<times> jval) list"

definition body_get :: "body \<Rightarrow> string \<Rightarrow> jval option" where
  "body_get b k = map_of b k"

definition keys :: "body \<Rightarrow> string list" where
  "keys b = map fst b"

text \<open>The string a validator sees: \<open>null\<close> and \<open>undefined\<close> are the empty string.\<close>

fun str_of :: "jval \<Rightarrow> string" where
  "str_of JNull = []"
| "str_of (JStr s) = s"

text \<open>JavaScript truthiness of a body value.\<close>

fun truthy :: "jval option \<Rightarrow> bool" where
  "truthy None = False"
| "truthy (Some JNull) = False"
| "truthy (Some (JStr s)) = (s \<noteq> [])"

definition is_space :: "char \<Rightarrow> bool" where
  "is_space c = (c \<in> set [CHR '' '', CHR 0x09, CHR 0x0A, CHR 0x0B, CHR 0x0C, CHR 0x0D])"

definition trim :: "string \<Rightarrow> string" where
  "trim s = rev (dropWhile is_space (rev (dropWhile is_space s)))"

definition hex_value :: "char \<Rightarrow> nat option" where
  "hex_value c =
     (let n = of_char c :: nat in
      if 48 \<le> n \<and> n \<le> 57 then Some (n - 48)
      else if 97 \<le> n \<and> n \<le> 102 then Some (n - 87)
      else if 65 \<le> n \<and> n \<le> 70 then Some (n - 55)
      else None)"

definition isMongoId :: "string \<Rightarrow> bool" where
  "isMongoId s = (length s = 24 \<and> list_all (\<lambda>c. hex_value c \<noteq> None) s)"

text \<open>The ObjectId a string casts to; \<open>None\<close> is the ODM's CastError.\<close>

definition castObjectId :: "string \<Rightarrow> oid option" where
  "castObjectId s =
     (if isMongoId s
      then Some (foldl (\<lambda>a c. 16 * a + (case hex_value c of Some d \<Rightarrow> d | None \<Rightarrow> 0)) 0 s)
      else if length s = 12
      then Some (foldl (\<lambda>a c. 256 * a + of_char c) 0 s)
      else None)"

text \<open>
  The date functions of the runtime and of the validation library are parameters of the
  routes: \<open>isISO8601\<close> is the validator of that name, \<open>newDate s\<close> is \<open>new Date(s)\<close>, with
  \<open>None\<close> for an invalid date.
\<close>

record datelib =
  isISO8601 :: "string \<Rightarrow> bool"
  newDate :: "string \<Rightarrow> int option"

subsection \<open>Responses\<close>

text \<open>
  \<open>Json c v\<close> is \<open>res.status(c).json(v)\<close> with a payload, \<open>Message c m\<close> the body
  \<open>{message: m}\<close>, \<open>Errors c fs\<close> the body \<open>{errors: [...]}\<close> of a failed validation, kept
  as the list of the fields that failed. The error names of the specification are the
  status codes: 400 validation and the other request errors, 401 unauthenticated,
  403 forbidden, 404 not found, 500 server error.
\<close>

datatype 'a reply = Json nat 'a | Message nat string | Errors nat "string list"

fun code :: "'a reply \<Rightarrow> nat" where
  "code (Json c v) = c"
| "code (Message c m) = c"
| "code (Errors c fs) = c"

text \<open>
  \<open>toLowerCase\<close> on the letters A to Z; strings are taken as ASCII text.
\<close>

definition to_lower :: "char \<Rightarrow> char" where
  "to_lower c =
     (let n = of_char c :: nat in if 65 \<le> n \<and> n \<le> 90 then char_of (n + 32) else c)"

definition toLowerCase :: "string \<Rightarrow> string" where
  "toLowerCase s = map to_lower s"

section \<open>models/Task.js\<close>

text \<open>The entries of the \<open>comments\<close> and \<open>attachments\<close> arrays of a task.\<close>

record comment =
  c_user :: oid
  c_text :: string
  c_createdAt :: int

record attachment =
  a_filename :: "string option"
  a_originalName :: "string option"
  a_size :: "int option"
  a_uploadedBy :: "oid option"
  a_uploadedAt :: int

text \<open>
  The Task document: \<open>tid\<close> is \<open>_id\<close>; \<open>createdAt\<close> and \<open>updatedAt\<close> are the two timestamps
  the schema option \<open>timestamps: true\<close> adds, which the ODM sets at every write it makes.
  The version key \<open>__v\<close> is not modelled.
\<close>

record task =
  tid :: oid
  title :: string
  description :: "string option"
  status :: status
  priority :: priority
  category :: category
  dueDate :: "int option"
  completedAt :: "int option"
  assignedTo :: "oid option"
  createdBy :: oid
  organization :: oid
  comments :: "comment list"
  attachments :: "attachment list"
  createdAt :: int
  updatedAt :: int

text \<open>
  The hook the option \<open>timestamps: true\<close> registers before the hooks of the model: a
  new document gets the value of its \<open>createdAt\<close> as \<open>updatedAt\<close>, a loaded one the
  clock when a path of it was modified (\<open>this.isModified()\<close>).
\<close>

definition timestamps_pre_save :: "int \<Rightarrow> bool \<Rightarrow> bool \<Rightarrow> task \<Rightarrow> task" where
  "timestamps_pre_save now isNew modified t =
     (if isNew then t\<lparr>updatedAt := createdAt t\<rparr>
      else if modified then t\<lparr>updatedAt := now\<rparr>
      else t)"

text \<open>
  \<open>taskSchema.pre("save")\<close>: \<open>modified\<close> is \<open>this.isModified("status")\<close>, \<open>now\<close> the clock
  read by \<open>new Date()\<close>.
\<close>

definition task_pre_save :: "int \<Rightarrow> bool \<Rightarrow> task \<Rightarrow> task" where
  "task_pre_save now modified t =
     (if modified then
        (if status t = Completed \<and> completedAt t = None then t\<lparr>completedAt := Some now\<rparr>
         else if status t \<noteq> Completed then t\<lparr>completedAt := None\<rparr>
         else t)
      else t)"

section \<open>models/User.js\<close>

text \<open>
  The User document. \<open>userOrganization\<close> is its \<open>organization\<close> reference (the field name
  is taken by the task), \<open>password\<close> the stored hash. The two timestamps of the document
  are not modelled.
\<close>

record user =
  uid :: oid
  name :: string
  email :: string
  password :: string
  userOrganization :: "oid option"
  role :: role
  isActive :: bool
  lastLogin :: "int option"
  inviteToken :: "string option"
  inviteExpires :: "int option"

text \<open>
  The functions of the hashing and validation libraries the auth routes call:
  \<open>isEmail\<close> and \<open>normalizeEmail\<close> of the validators, \<open>bcrypt_hash\<close> for
  \<open>bcrypt.hash(password, salt)\<close> and \<open>bcrypt_compare\<close> for \<open>bcrypt.compare\<close> on two strings.
\<close>

record authlib =
  isEmail :: "string \<Rightarrow> bool"
  normalizeEmail :: "string \<Rightarrow> string"
  bcrypt_hash :: "string \<Rightarrow> string"
  bcrypt_compare :: "string \<Rightarrow> string \<Rightarrow> bool"

text \<open>The setters of the \<open>email\<close> path (\<open>lowercase\<close>, \<open>trim\<close>), also applied to a query on it.\<close>

definition schema_email :: "string \<Rightarrow> string" where
  "schema_email s = toLowerCase (trim s)"

text \<open>\<open>userSchema.pre("save")\<close>: the password is hashed when it was modified.\<close>

definition user_pre_save :: "authlib \<Rightarrow> bool \<Rightarrow> user \<Rightarrow> user" where
  "user_pre_save A password_modified u =
     (if \<not> password_modified then u else u\<lparr>password := bcrypt_hash A (password u)\<rparr>)"

text \<open>
  \<open>user.comparePassword(candidate)\<close>. \<open>bcrypt.compare\<close> rejects a candidate that is not a
  string (``Illegal arguments''); \<open>None\<close> is that rejection.
\<close>

definition comparePassword :: "authlib \<Rightarrow> user \<Rightarrow> jval option \<Rightarrow> bool option" where
  "comparePassword A u candidate =
     (case candidate of
        Some (JStr s) \<Rightarrow> Some (bcrypt_compare A s (password u))
      | _ \<Rightarrow> None)"

text \<open>\<open>user.save()\<close> of a new and of a loaded document, with the unique index on \<open>email\<close>.\<close>

definition user_insert :: "authlib \<Rightarrow> user \<Rightarrow> user list \<Rightarrow> user list option" where
  "user_insert A u us =
     (let doc = user_pre_save A True u
      in if list_ex (\<lambda>x. uid x = uid doc \<or> email x = email doc) us then None
         else Some (us @ [doc]))"

definition user_update :: "authlib \<Rightarrow> bool \<Rightarrow> user \<Rightarrow> user list \<Rightarrow> user list option" where
  "user_update A password_modified u us =
     (let doc = user_pre_save A password_modified u
      in if list_ex (\<lambda>x. uid x \<noteq> uid doc \<and> email x = email doc) us then None
         else Some (map (\<lambda>x. if uid x = uid doc then doc else x) us))"

section \<open>models/Organization.js\<close>

text \<open>
  The Organization document; \<open>settings\<close> is flattened into its three fields. The two
  timestamps of the document are not modelled.
\<close>

record org =
  orgId :: oid
  orgName :: string
  slug :: string
  orgDescription :: "string option"
  theme :: string
  allowPublicSignup :: bool
  defaultRole :: string
  orgIsActive :: bool
  orgCreatedBy :: oid

text \<open>
  The base slug: \<open>name.toLowerCase().replace(/[^a-z0-9]/g, "-").replace(/-+/g, "-")
  .replace(/^-|-$/g, "")\<close>. \<open>is_lower_alnum\<close> is the class \<open>[a-z0-9]\<close>.
\<close>

definition is_lower_alnum :: "char \<Rightarrow> bool" where
  "is_lower_alnum c =
     (let n = of_char c :: nat in (97 \<le> n \<and> n \<le> 122) \<or> (48 \<le> n \<and> n \<le> 57))"

text \<open>\<open>.replace(/-+/g, "-")\<close>: every run of dashes becomes one dash.\<close>

fun collapse_dashes :: "string \<Rightarrow> string" where
  "collapse_dashes (c # c' # cs) =
     (if c = CHR ''-'' \<and> c' = CHR ''-'' then collapse_dashes (c' # cs)
      else c # collapse_dashes (c' # cs))"
| "collapse_dashes cs = cs"

text \<open>\<open>.replace(/^-|-$/g, "")\<close>: a dash at the start and a dash at the end are removed.\<close>

definition strip_dashes :: "string \<Rightarrow> string" where
  "strip_dashes s =
     (let s1 = (case s of [] \<Rightarrow> [] | c # cs \<Rightarrow> if c = CHR ''-'' then cs else s)
      in if s1 \<noteq> [] \<and> last s1 = CHR ''-'' then butlast s1 else s1)"

definition baseSlug :: "string \<Rightarrow> string" where
  "baseSlug nm =
     strip_dashes (collapse_dashes
       (map (\<lambda>c. if is_lower_alnum c then c else CHR ''-'') (toLowerCase nm)))"

text \<open>The decimal digits of a number, as the template string \<open>`${count}`\<close> writes it.\<close>

fun decimal :: "nat \<Rightarrow> string" where
  "decimal n =
     (if n < 10 then [char_of (48 + n)] else decimal (n div 10) @ [char_of (48 + n mod 10)])"

text \<open>
  The query of the hook's loop, \<open>findOne({slug, _id: {$ne: this._id}})\<close>, finds an
  organization: the slug is held by another organization.
\<close>

definition slug_taken :: "org list \<Rightarrow> oid \<Rightarrow> string \<Rightarrow> bool" where
  "slug_taken os i s = (find (\<lambda>g. slug g = s \<and> orgId g \<noteq> i) os \<noteq> None)"

text \<open>The slug \<open>`${baseSlug}-${count}`\<close>.\<close>

definition suffixed :: "string \<Rightarrow> nat \<Rightarrow> string" where
  "suffixed b n = b @ ''-'' @ decimal n"

text \<open>
  The loop of the hook ends because the suffixed slugs are pairwise different and the
  collection is finite: \<open>slug_pending\<close>, the counts from \<open>n\<close> on whose slug is taken, is a
  finite set that shrinks in every round.
\<close>

definition slug_pending :: "org list \<Rightarrow> oid \<Rightarrow> string \<Rightarrow> nat \<Rightarrow> nat set" where
  "slug_pending os i b n = {k. n \<le> k \<and> slug_taken os i (suffixed b k)}"

lemma value_decimal: "foldl (\<lambda>a c. 10 * a + (of_char c - 48)) 0 (decimal n) = n"
proof (induction n rule: decimal.induct)
  case (1 n)
  show ?case
  proof (cases "n < 10")
    case True
    then show ?thesis by (subst decimal.simps) simp
  next
    case False
    then have "foldl (\<lambda>a c. 10 * a + (of_char c - 48)) 0 (decimal (n div 10)) = n div 10"
      by (rule "1.IH")
    moreover have "of_char (char_of (48 + n mod 10) :: char) = 48 + n mod 10"
      by (simp add: of_char_of [where ?'a = nat])
    ultimately show ?thesis using False by (subst decimal.simps) simp
  qed
qed

lemma decimal_inj: "decimal m = decimal n \<Longrightarrow> m = n"
  by (metis value_decimal)

lemma suffixed_inj: "inj (suffixed b)"
proof (rule injI)
  fix m n assume "suffixed b m = suffixed b n"
  then have "decimal m = decimal n" by (simp add: suffixed_def)
  then show "m = n" by (rule decimal_inj)
qed

lemma finite_slug_pending: "finite (slug_pending os i b n)"
proof -
  have "slug_pending os i b n \<subseteq> suffixed b -` set (map slug os)"
    by (force simp: slug_pending_def slug_taken_def find_None_iff)
  moreover have "finite (suffixed b -` set (map slug os))"
    by (rule finite_vimageI [OF _ suffixed_inj]) simp
  ultimately show ?thesis by (rule finite_subset)
qed

lemma slug_pending_step:
  "slug_taken os i (suffixed b n) \<Longrightarrow> card (slug_pending os i b (Suc n)) < card (slug_pending os i b n)"
proof (rule psubset_card_mono [OF finite_slug_pending])
  assume "slug_taken os i (suffixed b n)"
  then have "n \<in> slug_pending os i b n" "n \<notin> slug_pending os i b (Suc n)"
    by (simp_all add: slug_pending_def)
  moreover have "slug_pending os i b (Suc n) \<subseteq> slug_pending os i b n"
    by (auto simp: slug_pending_def)
  ultimately show "slug_pending os i b (Suc n) \<subset> slug_pending os i b n" by blast
qed

text \<open>
  The loop \<open>while (await findOne(...)) slug = `${baseSlug}-${count++}`\<close>, on the state
  \<open>slug\<close>, \<open>count\<close>.
\<close>

function slug_loop :: "org list \<Rightarrow> oid \<Rightarrow> string \<Rightarrow> string \<Rightarrow> nat \<Rightarrow> string" where
  "slug_loop os i b s n =
     (if slug_taken os i s then slug_loop os i b (suffixed b n) (Suc n) else s)"
  by pat_completeness auto
termination
proof (relation "measure (\<lambda>(os, i, b, s, n).
    if slug_taken os i s then Suc (card (slug_pending os i b n)) else 0)")
  show "wf (measure (\<lambda>(os, i, b, s, n).
    if slug_taken os i s then Suc (card (slug_pending os i b n)) else 0))" by simp
next
  fix os :: "org list" and i :: oid and b s :: string and n :: nat
  assume "slug_taken os i s"
  then show "((os, i, b, suffixed b n, Suc n), (os, i, b, s, n)) \<in> measure (\<lambda>(os, i, b, s, n).
    if slug_taken os i s then Suc (card (slug_pending os i b n)) else 0)"
    by (simp add: slug_pending_step)
qed

declare slug_loop.simps [simp del]

text \<open>
  \<open>organizationSchema.pre("save")\<close>: \<open>os\<close> is the collection the hook queries,
  \<open>name_modified\<close> is \<open>this.isModified("name")\<close>.
\<close>

definition organization_pre_save :: "org list \<Rightarrow> bool \<Rightarrow> org \<Rightarrow> org" where
  "organization_pre_save os name_modified this =
     (if name_modified
      then this\<lparr>slug := slug_loop os (orgId this) (baseSlug (orgName this))
                            (baseSlug (orgName this)) 1\<rparr>
      else this)"

text \<open>
  The checks of the schema, which \<open>save()\<close> runs on the document as it stands before the
  hook above: \<open>name\<close> and \<open>slug\<close> are required (a required string is not empty), \<open>name\<close>
  has at most 100 characters and \<open>description\<close> at most 500, and the two settings are of
  their enumerations.
\<close>

definition organization_validate :: "org \<Rightarrow> bool" where
  "organization_validate this =
     (orgName this \<noteq> [] \<and> length (orgName this) \<le> 100 \<and> slug this \<noteq> [] \<and>
      (case orgDescription this of None \<Rightarrow> True | Some s \<Rightarrow> length s \<le> 500) \<and>
      theme this \<in> set [''light'', ''dark'', ''auto''] \<and>
      defaultRole this \<in> set [''Manager'', ''Member''])"

text \<open>
  \<open>organization.save()\<close> of a new document and of a loaded one: the checks of the schema,
  then the hook, then the write, which the store refuses when it would break the unique
  index on \<open>slug\<close> or on \<open>_id\<close>. \<open>None\<close> is a save that throws (a ValidationError or a
  duplicate-key error) and writes nothing. Every path of a new document is modified.
\<close>

definition organization_insert :: "org \<Rightarrow> org list \<Rightarrow> org list option" where
  "organization_insert this os =
     (if \<not> organization_validate this then None
      else
        (let doc = organization_pre_save os True this
         in if list_ex (\<lambda>g. orgId g = orgId doc \<or> slug g = slug doc) os then None
            else Some (os @ [doc])))"

definition organization_save :: "bool \<Rightarrow> org \<Rightarrow> org list \<Rightarrow> org list option" where
  "organization_save name_modified this os =
     (if \<not> organization_validate this then None
      else
        (let doc = organization_pre_save os name_modified this
         in if slug_taken os (orgId doc) (slug doc) then None
            else Some (map (\<lambda>g. if orgId g = orgId doc then doc else g) os)))"

section \<open>The store\<close>

text \<open>The three collections of the store.\<close>

record db =
  users :: "user list"
  orgs :: "org list"
  tasks :: "task list"

section \<open>middleware\<close>

text \<open>
  \<open>tenantIsolation\<close>: the request carries the user the \<open>auth\<close> middleware resolved;
  \<open>req.organizationId\<close> is the user's own organization, and a user without one is refused.
\<close>

definition tenantIsolation :: "user \<Rightarrow> 'a reply + oid" where
  "tenantIsolation u =
     (case userOrganization u of
        None \<Rightarrow> Inl (Message 401 ''Organization context required'')
      | Some organizationId \<Rightarrow> Inr organizationId)"

text \<open>
  Modelled from the spec: the role gate \<open>authorize(...roles)\<close> of middleware/auth.js, which
  is not among the sources. It lets the request through when the user's role is one of
  \<open>roles\<close> and otherwise ends it with ForbiddenError (403) before the handler runs; the
  text of its message is not specified.
\<close>

definition authorize :: "role list \<Rightarrow> user \<Rightarrow> bool" where
  "authorize roles u = (role u \<in> set roles)"

definition forbidden :: "'a reply" where
  "forbidden = Message 403 ''Access denied''"

section \<open>routes/tasks.js\<close>

subsection \<open>Validation chains\<close>

definition str_opt :: "jval option \<Rightarrow> string" where
  "str_opt v = (case v of None \<Rightarrow> [] | Some x \<Rightarrow> str_of x)"

text \<open>
  \<open>body(k).optional().P()\<close> and \<open>body(k).P()\<close>: the result is the list of failed fields.
\<close>

definition optional :: "body \<Rightarrow> string \<Rightarrow> (string \<Rightarrow> bool) \<Rightarrow> string list" where
  "optional b k P =
     (case body_get b k of None \<Rightarrow> [] | Some v \<Rightarrow> if P (str_of v) then [] else [k])"

definition required :: "body \<Rightarrow> string \<Rightarrow> (string \<Rightarrow> bool) \<Rightarrow> string list" where
  "required b k P = (if P (str_opt (body_get b k)) then [] else [k])"

definition isLength :: "nat \<Rightarrow> nat \<Rightarrow> string \<Rightarrow> bool" where
  "isLength lo hi s = (lo \<le> length s \<and> length s \<le> hi)"

definition isIn :: "string list \<Rightarrow> string \<Rightarrow> bool" where
  "isIn xs s = (s \<in> set xs)"

text \<open>The \<open>trim()\<close> sanitizer of a chain rewrites the field in the body.\<close>

definition sanitize_trim :: "string \<Rightarrow> body \<Rightarrow> body" where
  "sanitize_trim f b = map (\<lambda>(k, v). if k = f then (k, JStr (trim (str_of v))) else (k, v)) b"

definition validate_put :: "datelib \<Rightarrow> body \<Rightarrow> string list" where
  "validate_put L b =
     optional b ''title'' (\<lambda>s. isLength 1 200 (trim s)) @
     optional b ''description'' (isLength 0 2000) @
     optional b ''status'' (isIn [''Todo'', ''In Progress'', ''Completed'']) @
     optional b ''priority'' (isIn [''Low'', ''Medium'', ''High'']) @
     optional b ''category'' (isIn [''Bug'', ''Feature'', ''Improvement'']) @
     optional b ''dueDate'' (isISO8601 L) @
     optional b ''assignedTo'' isMongoId"

definition validate_post :: "datelib \<Rightarrow> body \<Rightarrow> string list" where
  "validate_post L b =
     required b ''title'' (\<lambda>s. isLength 1 200 (trim s)) @
     optional b ''description'' (isLength 0 2000) @
     required b ''category'' (isIn [''Bug'', ''Feature'', ''Improvement'']) @
     optional b ''priority'' (isIn [''Low'', ''Medium'', ''High'']) @
     optional b ''dueDate'' (isISO8601 L) @
     optional b ''assignedTo'' isMongoId"

subsection \<open>Queries\<close>

text \<open>\<open>findOne\<close> with the filters of the routes.\<close>

definition find_task :: "oid \<Rightarrow> oid \<Rightarrow> task list \<Rightarrow> task option" where
  "find_task i organizationId ts = find (\<lambda>t. tid t = i \<and> organization t = organizationId) ts"

definition find_assignee :: "oid \<Rightarrow> oid \<Rightarrow> user list \<Rightarrow> user option" where
  "find_assignee i organizationId us =
     find (\<lambda>u. uid u = i \<and> userOrganization u = Some organizationId \<and> isActive u) us"

text \<open>
  The write of \<open>save()\<close> for a loaded document is \<open>updateOne({_id: this._id}, {$set: ...})\<close>
  with the paths modified since the load: \<open>t\<close> is the document as loaded, \<open>doc\<close> the
  document at the write. The stored document found under the current \<open>_id\<close> of \<open>doc\<close> gets
  the modified paths and keeps its other paths; with no path modified it stays as it is.
  When the store has no document under that \<open>_id\<close> the save throws
  (DocumentNotFoundError, \<open>None\<close>).
\<close>

definition apply_delta :: "task \<Rightarrow> task \<Rightarrow> task \<Rightarrow> task" where
  "apply_delta t doc x =
     x\<lparr>title := (if title doc = title t then title x else title doc),
       description := (if description doc = description t then description x else description doc),
       status := (if status doc = status t then status x else status doc),
       priority := (if priority doc = priority t then priority x else priority doc),
       category := (if category doc = category t then category x else category doc),
       dueDate := (if dueDate doc = dueDate t then dueDate x else dueDate doc),
       completedAt := (if completedAt doc = completedAt t then completedAt x else completedAt doc),
       assignedTo := (if assignedTo doc = assignedTo t then assignedTo x else assignedTo doc),
       createdBy := (if createdBy doc = createdBy t then createdBy x else createdBy doc),
       organization := (if organization doc = organization t then organization x
                        else organization doc),
       comments := (if comments doc = comments t then comments x else comments doc),
       attachments := (if attachments doc = attachments t then attachments x
                       else attachments doc),
       updatedAt := (if updatedAt doc = updatedAt t then updatedAt x else updatedAt doc)\<rparr>"

definition save_task :: "task \<Rightarrow> task \<Rightarrow> task list \<Rightarrow> task list option" where
  "save_task t doc ts =
     (if list_ex (\<lambda>x. tid x = tid doc) ts
      then Some (map (\<lambda>x. if tid x = tid doc then apply_delta t doc x else x) ts)
      else None)"

text \<open>
  The write of \<open>save()\<close> for a document whose \<open>isNew\<close> flag is set is \<open>insertOne\<close> of the
  whole document, which the store refuses when the \<open>_id\<close> is taken (\<open>None\<close>).
\<close>

definition insert_task :: "task \<Rightarrow> task list \<Rightarrow> task list option" where
  "insert_task doc ts =
     (if list_ex (\<lambda>x. tid x = tid doc) ts then None else Some (ts @ [doc]))"

subsection \<open>Assignment to a document path\<close>

text \<open>
  \<open>task[key] = v\<close> followed by the schema's checks at \<open>save()\<close>: the value is cast to the
  path's type and validated; \<open>None\<close> is a save that throws (CastError, ValidationError),
  which the handler turns into the 500 reply. The keys the embedding covers are the ten
  paths listed in \<open>task_paths\<close>, the path \<open>_id\<close>, the two array paths, for which a string
  fails the cast and \<open>null\<close> is taken to leave no entry, and \<open>isNew\<close>, the flag of the
  document object that \<open>save()\<close> reads to choose between insert and update (the model
  takes the flag from the body, see \<open>put_apply\<close>). A key that names neither a path
  of the schema nor a member of the document object is a plain property, which the ODM
  does not store. The other members of the document object are outside the embedding;
  the lemmas below on arbitrary bodies are stated for bodies whose keys are in
  \<open>task_paths\<close>.
\<close>

definition task_paths :: "string list" where
  "task_paths =
     [''title'', ''description'', ''status'', ''priority'', ''category'', ''dueDate'',
      ''completedAt'', ''assignedTo'', ''createdBy'', ''organization'']"

definition cast_id :: "jval option \<Rightarrow> oid option option" where
  "cast_id v =
     (case v of
        Some (JStr s) \<Rightarrow> (case castObjectId s of None \<Rightarrow> None | Some i \<Rightarrow> Some (Some i))
      | _ \<Rightarrow> Some None)"

definition cast_date :: "datelib \<Rightarrow> jval option \<Rightarrow> int option option" where
  "cast_date L v =
     (case v of
        Some (JStr s) \<Rightarrow>
          (if s = [] then Some None
           else (case newDate L s of None \<Rightarrow> None | Some d \<Rightarrow> Some (Some d)))
      | _ \<Rightarrow> Some None)"

definition assign :: "datelib \<Rightarrow> task \<Rightarrow> string \<Rightarrow> jval option \<Rightarrow> task option" where
  "assign L t k v =
     (if k = ''title'' then
        (let s = trim (str_opt v) in
         if s = [] \<or> 200 < length s then None else Some (t\<lparr>title := s\<rparr>))
      else if k = ''description'' then
        (case v of
           Some (JStr s) \<Rightarrow> if 2000 < length s then None else Some (t\<lparr>description := Some s\<rparr>)
         | _ \<Rightarrow> Some (t\<lparr>description := None\<rparr>))
      else if k = ''status'' then
        (case status_of (str_opt v) of None \<Rightarrow> None | Some x \<Rightarrow> Some (t\<lparr>status := x\<rparr>))
      else if k = ''priority'' then
        (case priority_of (str_opt v) of None \<Rightarrow> None | Some x \<Rightarrow> Some (t\<lparr>priority := x\<rparr>))
      else if k = ''category'' then
        (case category_of (str_opt v) of None \<Rightarrow> None | Some x \<Rightarrow> Some (t\<lparr>category := x\<rparr>))
      else if k = ''dueDate'' then
        (case cast_date L v of None \<Rightarrow> None | Some d \<Rightarrow> Some (t\<lparr>dueDate := d\<rparr>))
      else if k = ''completedAt'' then
        (case cast_date L v of None \<Rightarrow> None | Some d \<Rightarrow> Some (t\<lparr>completedAt := d\<rparr>))
      else if k = ''assignedTo'' then
        (case cast_id v of None \<Rightarrow> None | Some a \<Rightarrow> Some (t\<lparr>assignedTo := a\<rparr>))
      else if k = ''createdBy'' then
        (case cast_id v of Some (Some i) \<Rightarrow> Some (t\<lparr>createdBy := i\<rparr>) | _ \<Rightarrow> None)
      else if k = ''organization'' then
        (case cast_id v of Some (Some i) \<Rightarrow> Some (t\<lparr>organization := i\<rparr>) | _ \<Rightarrow> None)
      else if k = ''_id'' then
        (case cast_id v of Some (Some i) \<Rightarrow> Some (t\<lparr>tid := i\<rparr>) | _ \<Rightarrow> None)
      else if k = ''comments'' then
        (case v of Some (JStr s) \<Rightarrow> None | _ \<Rightarrow> Some (t\<lparr>comments := []\<rparr>))
      else if k = ''attachments'' then
        (case v of Some (JStr s) \<Rightarrow> None | _ \<Rightarrow> Some (t\<lparr>attachments := []\<rparr>))
      else Some t)"

text \<open>
  One round of the loop \<open>Object.keys(req.body).forEach(...)\<close> of the update handler, and
  the loop.
\<close>

definition put_field :: "datelib \<Rightarrow> body \<Rightarrow> task \<Rightarrow> string \<Rightarrow> task option" where
  "put_field L b t k =
     (if k = ''dueDate'' \<and> truthy (body_get b k) then
        (case newDate L (str_opt (body_get b k)) of
           None \<Rightarrow> None
         | Some d \<Rightarrow> Some (t\<lparr>dueDate := Some d\<rparr>))
      else assign L t k (body_get b k))"

fun copy_fields :: "datelib \<Rightarrow> body \<Rightarrow> string list \<Rightarrow> task \<Rightarrow> task option" where
  "copy_fields L b [] t = Some t"
| "copy_fields L b (k # ks) t =
     (case put_field L b t k of None \<Rightarrow> None | Some t' \<Rightarrow> copy_fields L b ks t')"

subsection \<open>PUT /tasks/:id\<close>

text \<open>
  \<open>put_apply\<close> is the tail of the handler: the copy loop, \<open>task.save()\<close> with the hook of
  the timestamps and the hook of the model, and the reply. A path is modified when the
  loop left it different from the loaded one. The loop assigns the key \<open>isNew\<close> like
  every other key, so the flag \<open>save()\<close> reads is the truthiness of that value of the
  body. The clock is read once per request. Population of the referenced users in a
  reply is not modelled.
\<close>

definition put_apply :: "datelib \<Rightarrow> body \<Rightarrow> int \<Rightarrow> task \<Rightarrow> db \<Rightarrow> task reply \<times> db" where
  "put_apply L b now t d =
     (case copy_fields L b (keys b) t of
        None \<Rightarrow> (Message 500 ''Server error'', d)
      | Some doc \<Rightarrow>
          (let isNew = truthy (body_get b ''isNew'');
               saved = task_pre_save now (status doc \<noteq> status t)
                         (timestamps_pre_save now isNew (doc \<noteq> t) doc)
           in case (if isNew then insert_task saved (tasks d)
                    else save_task t saved (tasks d)) of
                None \<Rightarrow> (Message 500 ''Server error'', d)
              | Some ts \<Rightarrow> (Json 200 saved, d\<lparr>tasks := ts\<rparr>)))"

definition put_task ::
  "datelib \<Rightarrow> user \<Rightarrow> string \<Rightarrow> body \<Rightarrow> int \<Rightarrow> db \<Rightarrow> task reply \<times> db" where
  "put_task L actor idp b0 now d =
     (case tenantIsolation actor of
        Inl r \<Rightarrow> (r, d)
      | Inr organizationId \<Rightarrow>
          if validate_put L b0 \<noteq> [] then (Errors 400 (validate_put L b0), d)
          else
            (let b = sanitize_trim ''title'' b0 in
             case castObjectId idp of
               None \<Rightarrow> (Message 500 ''Server error'', d)
             | Some i \<Rightarrow>
                 (case find_task i organizationId (tasks d) of
                    None \<Rightarrow> (Message 404 ''Task not found'', d)
                  | Some t \<Rightarrow>
                      if role actor = Member \<and> assignedTo t \<noteq> Some (uid actor)
                      then (Message 403 ''Access denied'', d)
                      else if role actor = Member \<and>
                              list_ex (\<lambda>field. field \<notin> set [''status'']) (keys b)
                      then (Message 403 ''Members can only update task status'', d)
                      else if truthy (body_get b ''assignedTo'') then
                        (case castObjectId (str_opt (body_get b ''assignedTo'')) of
                           None \<Rightarrow> (Message 500 ''Server error'', d)
                         | Some a \<Rightarrow>
                             (case find_assignee a organizationId (users d) of
                                None \<Rightarrow> (Message 400 ''Invalid assigned user'', d)
                              | Some u \<Rightarrow> put_apply L b now t d))
                      else put_apply L b now t d)))"

subsection \<open>GET /tasks/:id and DELETE /tasks/:id\<close>

definition get_task :: "user \<Rightarrow> string \<Rightarrow> db \<Rightarrow> task reply" where
  "get_task actor idp d =
     (case tenantIsolation actor of
        Inl r \<Rightarrow> r
      | Inr organizationId \<Rightarrow>
          (case castObjectId idp of
             None \<Rightarrow> Message 500 ''Server error''
           | Some i \<Rightarrow>
               (case find_task i organizationId (tasks d) of
                  None \<Rightarrow> Message 404 ''Task not found''
                | Some t \<Rightarrow>
                    if role actor = Member \<and> assignedTo t \<noteq> Some (uid actor) \<and>
                       createdBy t \<noteq> uid actor
                    then Message 403 ''Access denied''
                    else Json 200 t)))"

definition delete_task :: "user \<Rightarrow> string \<Rightarrow> db \<Rightarrow> task reply \<times> db" where
  "delete_task actor idp d =
     (case tenantIsolation actor of
        Inl r \<Rightarrow> (r, d)
      | Inr organizationId \<Rightarrow>
          if \<not> authorize [Admin, Manager] actor then (forbidden, d)
          else
            (case castObjectId idp of
               None \<Rightarrow> (Message 500 ''Server error'', d)
             | Some i \<Rightarrow>
                 (case find_task i organizationId (tasks d) of
                    None \<Rightarrow> (Message 404 ''Task not found'', d)
                  | Some t \<Rightarrow>
                      (Message 200 ''Task deleted successfully'',
                       d\<lparr>tasks := remove1 t (tasks d)\<rparr>))))"

subsection \<open>POST /tasks\<close>

text \<open>
  \<open>new Task({...})\<close> with the schema's defaults and checks; \<open>i\<close> is the fresh \<open>_id\<close> the
  driver generates, \<open>None\<close> a document \<open>save()\<close> rejects. Both timestamps of the new
  document are the clock.
\<close>

definition new_task :: "datelib \<Rightarrow> body \<Rightarrow> user \<Rightarrow> oid \<Rightarrow> int \<Rightarrow> oid \<Rightarrow> task option" where
  "new_task L b actor organizationId now i =
     (let s = trim (str_opt (body_get b ''title''));
          due = body_get b ''dueDate'';
          asg = body_get b ''assignedTo''
      in
      if s = [] \<or> 200 < length s \<or> 2000 < length (str_opt (body_get b ''description''))
      then None
      else
        (case category_of (str_opt (body_get b ''category'')) of
           None \<Rightarrow> None
         | Some c \<Rightarrow>
        (case priority_of (if truthy (body_get b ''priority'')
                           then str_opt (body_get b ''priority'') else ''Medium'') of
           None \<Rightarrow> None
         | Some p \<Rightarrow>
        (case (if truthy due then map_option Some (newDate L (str_opt due)) else Some None) of
           None \<Rightarrow> None
         | Some dd \<Rightarrow>
        (case (if truthy asg then map_option Some (castObjectId (str_opt asg)) else Some None) of
           None \<Rightarrow> None
         | Some a \<Rightarrow>
             Some \<lparr>tid = i, title = s,
                   description = (case body_get b ''description'' of
                                    Some (JStr x) \<Rightarrow> Some x | _ \<Rightarrow> None),
                   status = Todo, priority = p, category = c, dueDate = dd,
                   completedAt = None, assignedTo = a, createdBy = uid actor,
                   organization = organizationId, comments = [], attachments = [],
                   createdAt = now, updatedAt = now\<rparr>)))))"

text \<open>
  The tail of the create handler. The status of the new document is the schema's
  default, which is not a modification; the hook leaves the new document as it is
  either way.
\<close>

definition post_create ::
  "datelib \<Rightarrow> body \<Rightarrow> user \<Rightarrow> oid \<Rightarrow> int \<Rightarrow> oid \<Rightarrow> db \<Rightarrow> task reply \<times> db" where
  "post_create L b actor organizationId now i d =
     (case new_task L b actor organizationId now i of
        None \<Rightarrow> (Message 500 ''Server error'', d)
      | Some t \<Rightarrow>
          (let saved = task_pre_save now False t
           in (Json 201 saved, d\<lparr>tasks := tasks d @ [saved]\<rparr>)))"

definition post_task ::
  "datelib \<Rightarrow> user \<Rightarrow> body \<Rightarrow> int \<Rightarrow> oid \<Rightarrow> db \<Rightarrow> task reply \<times> db" where
  "post_task L actor b0 now i d =
     (case tenantIsolation actor of
        Inl r \<Rightarrow> (r, d)
      | Inr organizationId \<Rightarrow>
          if \<not> authorize [Admin, Manager] actor then (forbidden, d)
          else if validate_post L b0 \<noteq> [] then (Errors 400 (validate_post L b0), d)
          else
            (let b = sanitize_trim ''title'' b0 in
             if truthy (body_get b ''assignedTo'') then
               (case castObjectId (str_opt (body_get b ''assignedTo'')) of
                  None \<Rightarrow> (Message 500 ''Server error'', d)
                | Some a \<Rightarrow>
                    (case find_assignee a organizationId (users d) of
                       None \<Rightarrow> (Message 400 ''Invalid assigned user'', d)
                     | Some u \<Rightarrow> post_create L b actor organizationId now i d))
             else post_create L b actor organizationId now i d))"

subsection \<open>GET /tasks and GET /tasks/stats/overview\<close>

text \<open>
  The query string. \<open>page\<close> and \<open>limit\<close> are kept as the integers they denote (a value
  that is no integer fails \<open>isInt\<close> and cannot be written here); the filters are strings.
\<close>

record list_query =
  q_page :: "int option"
  q_limit :: "int option"
  q_status :: "string option"
  q_priority :: "string option"
  q_category :: "string option"
  q_assignedTo :: "string option"

definition q_optional :: "'a option \<Rightarrow> string \<Rightarrow> ('a \<Rightarrow> bool) \<Rightarrow> string list" where
  "q_optional v k P = (case v of None \<Rightarrow> [] | Some x \<Rightarrow> if P x then [] else [k])"

definition validate_list :: "list_query \<Rightarrow> string list" where
  "validate_list q =
     q_optional (q_page q) ''page'' (\<lambda>n. 1 \<le> n) @
     q_optional (q_limit q) ''limit'' (\<lambda>n. 1 \<le> n \<and> n \<le> 100) @
     q_optional (q_status q) ''status'' (isIn [''Todo'', ''In Progress'', ''Completed'', ''Expired'']) @
     q_optional (q_priority q) ''priority'' (isIn [''Low'', ''Medium'', ''High'']) @
     q_optional (q_category q) ''category'' (isIn [''Bug'', ''Feature'', ''Improvement'']) @
     q_optional (q_assignedTo q) ''assignedTo'' isMongoId"

text \<open>\<open>if (req.query.f) filter.f = req.query.f\<close>: an absent or empty value adds no condition.\<close>

definition q_cond :: "string option \<Rightarrow> (string \<Rightarrow> bool) \<Rightarrow> bool" where
  "q_cond v P = (case v of None \<Rightarrow> True | Some s \<Rightarrow> if s = [] then True else P s)"

text \<open>The \<open>$or\<close> condition added for a Member, in the list and in the statistics.\<close>

definition member_scope :: "user \<Rightarrow> task \<Rightarrow> bool" where
  "member_scope actor t =
     (if role actor = Member
      then assignedTo t = Some (uid actor) \<or> createdBy t = uid actor
      else True)"

definition list_filter :: "user \<Rightarrow> oid \<Rightarrow> list_query \<Rightarrow> task \<Rightarrow> bool" where
  "list_filter actor organizationId q t =
     (organization t = organizationId \<and>
      q_cond (q_status q) (\<lambda>s. status_name (status t) = s) \<and>
      q_cond (q_priority q) (\<lambda>s. priority_name (priority t) = s) \<and>
      q_cond (q_category q) (\<lambda>s. category_name (category t) = s) \<and>
      q_cond (q_assignedTo q) (\<lambda>s. castObjectId s \<noteq> None \<and> assignedTo t = castObjectId s) \<and>
      member_scope actor t)"

text \<open>
  The page of the list: the matching tasks sorted by \<open>createdAt\<close>, newest first (tasks of
  the same \<open>createdAt\<close> in the order of the collection), after \<open>skip\<close> and \<open>limit\<close>, with
  the pagination record.
\<close>

record task_page =
  page_tasks :: "task list"
  page :: int
  limit :: int
  total :: nat
  pages :: int

text \<open>\<open>Number.parseInt(v) || dflt\<close>, and \<open>Math.ceil(a / b)\<close>.\<close>

definition or_default :: "int option \<Rightarrow> int \<Rightarrow> int" where
  "or_default v dflt = (case v of None \<Rightarrow> dflt | Some n \<Rightarrow> if n = 0 then dflt else n)"

definition ceil_div :: "int \<Rightarrow> int \<Rightarrow> int" where
  "ceil_div a b = - ((- a) div b)"

definition get_tasks :: "user \<Rightarrow> list_query \<Rightarrow> db \<Rightarrow> task_page reply" where
  "get_tasks actor q d =
     (case tenantIsolation actor of
        Inl r \<Rightarrow> r
      | Inr organizationId \<Rightarrow>
          if validate_list q \<noteq> [] then Errors 400 (validate_list q)
          else
            (let pg = or_default (q_page q) 1;
                 lim = or_default (q_limit q) 10;
                 skip = (pg - 1) * lim;
                 found = filter (list_filter actor organizationId q) (tasks d)
             in Json 200
                  \<lparr>page_tasks = take (nat lim) (drop (nat skip) (sort_key (\<lambda>t. - createdAt t) found)),
                   page = pg, limit = lim, total = length found,
                   pages = ceil_div (int (length found)) lim\<rparr>))"

record stats =
  s_total :: nat
  todo :: nat
  inProgress :: nat
  completed :: nat
  expired :: nat
  overdue :: nat

text \<open>The \<open>$sum\<close> of a \<open>$cond\<close> over the matched tasks.\<close>

definition count :: "('a \<Rightarrow> bool) \<Rightarrow> 'a list \<Rightarrow> nat" where
  "count P xs = length (filter P xs)"



section \<open>jobs: taskExpirationJob\<close>

text \<open>
  One tick: \<open>Task.updateMany\<close> with the filter \<open>expiry_match\<close> and the update
  \<open>$set: {status: "Expired"}\<close>, to which the ODM adds \<open>updatedAt\<close> because the schema has
  \<open>timestamps: true\<close>. A \<open>$lt\<close> query never matches a missing date. The result is
  \<open>modifiedCount\<close> and the collection after the update; the update goes to the store
  directly, so no \<open>save\<close> hook runs. The clock is read once per tick.
\<close>

definition expiry_match :: "int \<Rightarrow> task \<Rightarrow> bool" where
  "expiry_match now t =
     ((case dueDate t of None \<Rightarrow> False | Some due \<Rightarrow> due < now) \<and>
      status t \<notin> set [Completed, Expired])"

definition taskExpirationJob :: "int \<Rightarrow> task list \<Rightarrow> nat \<times> task list" where
  "taskExpirationJob now ts =
     (length (filter (expiry_match now) ts),
      map (\<lambda>t. if expiry_match now t then t\<lparr>status := Expired, updatedAt := now\<rparr> else t) ts)"

section \<open>routes/auth.js\<close>

text \<open>
  The payload of a successful register, login or join: \<open>token_user\<close> is the \<open>userId\<close> the
  signed token carries (the signature and the seven days of validity are not modelled),
  the rest is the public view of the user and the organization.
\<close>

record session =
  token_user :: oid
  s_id :: oid
  s_name :: string
  s_email :: string
  s_role :: role
  s_org_id :: oid
  s_org_name :: string
  s_org_slug :: string

definition minLength :: "nat \<Rightarrow> string \<Rightarrow> bool" where
  "minLength lo s = (lo \<le> length s)"

text \<open>\<open>body(k).exists()\<close>: the value is not \<open>undefined\<close>.\<close>

definition exists_field :: "body \<Rightarrow> string \<Rightarrow> string list" where
  "exists_field b k = (case body_get b k of None \<Rightarrow> [k] | Some v \<Rightarrow> [])"

definition find_email :: "string \<Rightarrow> user list \<Rightarrow> user option" where
  "find_email e us = find (\<lambda>u. email u = schema_email e) us"

text \<open>\<open>.populate("organization")\<close>: the referenced document, \<open>None\<close> (\<open>null\<close>) when there is none.\<close>

definition populate :: "oid option \<Rightarrow> org list \<Rightarrow> org option" where
  "populate r os = (case r of None \<Rightarrow> None | Some i \<Rightarrow> find (\<lambda>g. orgId g = i) os)"

definition session_of :: "user \<Rightarrow> org \<Rightarrow> session" where
  "session_of u g =
     \<lparr>token_user = uid u, s_id = uid u, s_name = name u, s_email = email u, s_role = role u,
      s_org_id = orgId g, s_org_name = orgName g, s_org_slug = slug g\<rparr>"

subsection \<open>generateSlug\<close>

definition is_word :: "char \<Rightarrow> bool" where
  "is_word c =
     (let n = of_char c :: nat
      in (97 \<le> n \<and> n \<le> 122) \<or> (65 \<le> n \<and> n \<le> 90) \<or> (48 \<le> n \<and> n \<le> 57) \<or> n = 95)"

text \<open>\<open>.replace(/\s+/g, "-")\<close>: every run of white space becomes one dash.\<close>

fun spaces_to_dash :: "string \<Rightarrow> string" where
  "spaces_to_dash (c # c' # cs) =
     (if is_space c then
        (if is_space c' then spaces_to_dash (c' # cs) else CHR ''-'' # spaces_to_dash (c' # cs))
      else c # spaces_to_dash (c' # cs))"
| "spaces_to_dash [c] = (if is_space c then ''-'' else [c])"
| "spaces_to_dash [] = []"

definition generateSlug :: "string \<Rightarrow> string" where
  "generateSlug text =
     collapse_dashes
       (filter (\<lambda>c. is_word c \<or> c = CHR ''-'') (spaces_to_dash (trim (toLowerCase text))))"

subsection \<open>POST /auth/register\<close>

definition validate_register :: "authlib \<Rightarrow> body \<Rightarrow> string list" where
  "validate_register A b =
     required b ''name'' (\<lambda>s. isLength 2 100 (trim s)) @
     required b ''email'' (isEmail A) @
     required b ''password'' (minLength 6) @
     required b ''organizationName'' (\<lambda>s. isLength 2 100 (trim s))"

text \<open>
  The handler in its three steps; \<open>i\<close> and \<open>j\<close> are the fresh ids of the user and of the
  organization. A save that throws ends the request with the 500 reply and leaves what
  the earlier steps wrote.
\<close>

definition new_admin :: "oid \<Rightarrow> string \<Rightarrow> string \<Rightarrow> string \<Rightarrow> user" where
  "new_admin i nm em pw =
     \<lparr>uid = i, name = trim nm, email = schema_email em, password = pw,
      userOrganization = None, role = Admin, isActive = True, lastLogin = None,
      inviteToken = None, inviteExpires = None\<rparr>"

definition new_organization :: "oid \<Rightarrow> string \<Rightarrow> oid \<Rightarrow> org" where
  "new_organization j organizationName i =
     \<lparr>orgId = j, orgName = trim organizationName,
      slug = toLowerCase (trim (generateSlug organizationName)),
      orgDescription = None, theme = ''light'', allowPublicSignup = False,
      defaultRole = ''Member'', orgIsActive = True, orgCreatedBy = i\<rparr>"

definition register ::
  "authlib \<Rightarrow> body \<Rightarrow> oid \<Rightarrow> oid \<Rightarrow> db \<Rightarrow> session reply \<times> db" where
  "register A b i j d =
     (if validate_register A b \<noteq> [] then (Errors 400 (validate_register A b), d)
      else
        (let nm = trim (str_opt (body_get b ''name''));
             em = normalizeEmail A (str_opt (body_get b ''email''));
             pw = str_opt (body_get b ''password'');
             organizationName = trim (str_opt (body_get b ''organizationName''))
         in
         if find_email em (users d) \<noteq> None then (Message 400 ''User already exists'', d)
         else
           (case user_insert A (new_admin i nm em pw) (users d) of
              None \<Rightarrow> (Message 500 ''Server error during registration'', d)
            | Some us1 \<Rightarrow>
                (case organization_insert (new_organization j organizationName i) (orgs d) of
                   None \<Rightarrow> (Message 500 ''Server error during registration'', d\<lparr>users := us1\<rparr>)
                 | Some os2 \<Rightarrow>
                     (let u2 = (user_pre_save A True (new_admin i nm em pw))
                                 \<lparr>userOrganization := Some j\<rparr>;
                          g2 = organization_pre_save (orgs d) True
                                 (new_organization j organizationName i)
                      in
                      case user_update A False u2 us1 of
                        None \<Rightarrow>
                          (Message 500 ''Server error during registration'',
                           d\<lparr>users := us1, orgs := os2\<rparr>)
                      | Some us3 \<Rightarrow>
                          (Json 201 (session_of u2 g2), d\<lparr>users := us3, orgs := os2\<rparr>))))))"

subsection \<open>POST /auth/login\<close>

definition validate_login :: "authlib \<Rightarrow> body \<Rightarrow> string list" where
  "validate_login A b = required b ''email'' (isEmail A) @ exists_field b ''password''"

definition login :: "authlib \<Rightarrow> body \<Rightarrow> int \<Rightarrow> db \<Rightarrow> session reply \<times> db" where
  "login A b now d =
     (if validate_login A b \<noteq> [] then (Errors 400 (validate_login A b), d)
      else
        (let em = normalizeEmail A (str_opt (body_get b ''email''))
         in
         case find (\<lambda>u. email u = schema_email em \<and> isActive u) (users d) of
           None \<Rightarrow> (Message 400 ''Invalid credentials'', d)
         | Some u \<Rightarrow>
             (case comparePassword A u (body_get b ''password'') of
                None \<Rightarrow> (Message 500 ''Server error during login'', d)
              | Some isMatch \<Rightarrow>
                  if \<not> isMatch then (Message 400 ''Invalid credentials'', d)
                  else
                    (let u1 = u\<lparr>lastLogin := Some now\<rparr>
                     in
                     case user_update A False u1 (users d) of
                       None \<Rightarrow> (Message 500 ''Server error during login'', d)
                     | Some us1 \<Rightarrow>
                         (case populate (userOrganization u) (orgs d) of
                            None \<Rightarrow> (Message 500 ''Server error during login'', d\<lparr>users := us1\<rparr>)
                          | Some g \<Rightarrow> (Json 200 (session_of u1 g), d\<lparr>users := us1\<rparr>))))))"

subsection \<open>POST /auth/join\<close>

definition validate_join :: "authlib \<Rightarrow> body \<Rightarrow> string list" where
  "validate_join A b =
     required b ''name'' (\<lambda>s. isLength 2 100 (trim s)) @
     required b ''email'' (isEmail A) @
     required b ''password'' (minLength 6) @
     exists_field b ''inviteToken''"

text \<open>
  The query \<open>{inviteToken, inviteExpires: {$gt: Date.now()}}\<close>: a \<open>null\<close> token matches a
  user without one, and \<open>$gt\<close> never matches a missing date.
\<close>

definition invite_match :: "jval option \<Rightarrow> int \<Rightarrow> user \<Rightarrow> bool" where
  "invite_match tok now u =
     ((case tok of Some (JStr s) \<Rightarrow> inviteToken u = Some s | _ \<Rightarrow> inviteToken u = None) \<and>
      (case inviteExpires u of None \<Rightarrow> False | Some e \<Rightarrow> now < e))"

definition new_member :: "oid \<Rightarrow> string \<Rightarrow> string \<Rightarrow> string \<Rightarrow> oid \<Rightarrow> user" where
  "new_member i nm em pw organizationId =
     \<lparr>uid = i, name = trim nm, email = schema_email em, password = pw,
      userOrganization = Some organizationId, role = Member, isActive = True,
      lastLogin = None, inviteToken = None, inviteExpires = None\<rparr>"

definition join :: "authlib \<Rightarrow> body \<Rightarrow> int \<Rightarrow> oid \<Rightarrow> db \<Rightarrow> session reply \<times> db" where
  "join A b now i d =
     (if validate_join A b \<noteq> [] then (Errors 400 (validate_join A b), d)
      else
        (let nm = trim (str_opt (body_get b ''name''));
             em = normalizeEmail A (str_opt (body_get b ''email''));
             pw = str_opt (body_get b ''password'')
         in
         case find (invite_match (body_get b ''inviteToken'') now) (users d) of
           None \<Rightarrow> (Message 400 ''Invalid or expired invite token'', d)
         | Some existingUser \<Rightarrow>
             if find_email em (users d) \<noteq> None then (Message 400 ''User already exists'', d)
             else
               (case populate (userOrganization existingUser) (orgs d) of
                  None \<Rightarrow> (Message 500 ''Server error during registration'', d)
                | Some g \<Rightarrow>
                    (case user_insert A (new_member i nm em pw (orgId g)) (users d) of
                       None \<Rightarrow> (Message 500 ''Server error during registration'', d)
                     | Some us1 \<Rightarrow>
                         (Json 201
                            (session_of (user_pre_save A True (new_member i nm em pw (orgId g))) g),
                          d\<lparr>users := us1\<rparr>)))))"

section \<open>routes/organizations.js\<close>

subsection \<open>PUT /organizations/settings\<close>

text \<open>
  The update of name and description. The \<open>settings\<close> object of the body is a nested
  object and outside the embedding. The name is modified when the assignment left it
  different from the loaded one.
\<close>

definition validate_settings :: "body \<Rightarrow> string list" where
  "validate_settings b =
     optional b ''name'' (\<lambda>s. isLength 2 100 (trim s)) @
     optional b ''description'' (isLength 0 500)"

definition assign_settings :: "body \<Rightarrow> org \<Rightarrow> org" where
  "assign_settings b current =
     (let g1 = (if truthy (body_get b ''name'')
                then current\<lparr>orgName := trim (str_opt (body_get b ''name''))\<rparr>
                else current)
      in case body_get b ''description'' of
           None \<Rightarrow> g1
         | Some JNull \<Rightarrow> g1\<lparr>orgDescription := None\<rparr>
         | Some (JStr s) \<Rightarrow> g1\<lparr>orgDescription := Some s\<rparr>)"

definition put_settings :: "user \<Rightarrow> body \<Rightarrow> db \<Rightarrow> org reply \<times> db" where
  "put_settings actor b0 d =
     (case tenantIsolation actor of
        Inl r \<Rightarrow> (r, d)
      | Inr organizationId \<Rightarrow>
          if \<not> authorize [Admin] actor then (forbidden, d)
          else if validate_settings b0 \<noteq> [] then (Errors 400 (validate_settings b0), d)
          else
            (let b = sanitize_trim ''name'' b0 in
             case find (\<lambda>g. orgId g = organizationId) (orgs d) of
               None \<Rightarrow> (Message 404 ''Organization not found'', d)
             | Some current \<Rightarrow>
                 (let g2 = assign_settings b current;
                      name_modified = (orgName g2 \<noteq> orgName current)
                  in
                  case organization_save name_modified g2 (orgs d) of
                    None \<Rightarrow> (Message 500 ''Server error'', d)
                  | Some os1 \<Rightarrow>
                      (Json 200 (organization_pre_save (orgs d) name_modified g2),
                       d\<lparr>orgs := os1\<rparr>))))"

subsection \<open>POST /organizations/invite\<close>

definition role_of :: "string \<Rightarrow> role option" where
  "role_of s =
     (if s = ''Admin'' then Some Admin
      else if s = ''Manager'' then Some Manager
      else if s = ''Member'' then Some Member
      else None)"

definition validate_invite :: "authlib \<Rightarrow> body \<Rightarrow> string list" where
  "validate_invite A b =
     required b ''email'' (isEmail A) @ optional b ''role'' (isIn [''Manager'', ''Member''])"

text \<open>
  \<open>tok\<close> is the token \<open>crypto.randomBytes(32).toString("hex")\<close> drew, \<open>i\<close> the fresh id of
  the placeholder user; the reply carries the token and its expiry.
\<close>

definition invite ::
  "authlib \<Rightarrow> user \<Rightarrow> body \<Rightarrow> int \<Rightarrow> string \<Rightarrow> oid \<Rightarrow> db \<Rightarrow> (string \<times> int) reply \<times> db" where
  "invite A actor b now tok i d =
     (case tenantIsolation actor of
        Inl r \<Rightarrow> (r, d)
      | Inr organizationId \<Rightarrow>
          if \<not> authorize [Admin, Manager] actor then (forbidden, d)
          else if validate_invite A b \<noteq> [] then (Errors 400 (validate_invite A b), d)
          else
            (let em = normalizeEmail A (str_opt (body_get b ''email''));
                 inviteExpires = now + 7 * 24 * 60 * 60 * 1000
             in
             if find_email em (users d) \<noteq> None then (Message 400 ''User already exists'', d)
             else
               (case role_of (case body_get b ''role'' of None \<Rightarrow> ''Member'' | Some v \<Rightarrow> str_of v) of
                  None \<Rightarrow> (Message 500 ''Server error'', d)
                | Some r \<Rightarrow>
                    (case user_insert A
                            \<lparr>uid = i, name = ''Invited User'', email = schema_email em,
                             password = ''temporary'', userOrganization = Some organizationId,
                             role = r, isActive = False, lastLogin = None,
                             inviteToken = Some tok, inviteExpires = Some inviteExpires\<rparr>
                            (users d) of
                       None \<Rightarrow> (Message 500 ''Server error'', d)
                     | Some us1 \<Rightarrow> (Json 200 (tok, inviteExpires), d\<lparr>users := us1\<rparr>)))))"

section \<open>Request traces\<close>

text \<open>
  One step of the request path on the task collection is the store after a create, an
  update or a delete request, by any user with any arguments, where the keys of an update
  body are among \<open>task_paths\<close>; a path is a sequence of steps. The expiration job is not a
  step of it.
\<close>

definition within_task_paths :: "body \<Rightarrow> bool" where
  "within_task_paths b = list_all (\<lambda>k. k \<in> set task_paths) (keys b)"

inductive request_step :: "datelib \<Rightarrow> db \<Rightarrow> db \<Rightarrow> bool" for L :: datelib where
  create: "request_step L d (snd (post_task L actor b now i d))"
| update: "within_task_paths b \<Longrightarrow> request_step L d (snd (put_task L actor idp b now d))"
| remove: "request_step L d (snd (delete_task actor idp d))"

inductive request_path :: "datelib \<Rightarrow> db \<Rightarrow> db \<Rightarrow> bool" for L :: datelib where
  path_refl: "request_path L d d"
| path_step: "request_path L d d' \<Longrightarrow> request_step L d' d'' \<Longrightarrow> request_path L d d''"

section \<open>The completedAt invariant\<close>

text \<open>After the specification: \<open>completedAt\<close> is set exactly when the status is Completed.\<close>

definition completedAt_ok :: "task \<Rightarrow> bool" where
  "completedAt_ok t = ((completedAt t \<noteq> None) = (status t = Completed))"

section \<open>The slugs tried in order\<close>

text \<open>
  After the specification: the base slug first, then the base slug with the suffixes
  \<open>-1\<close>, \<open>-2\<close>, ... . \<open>slug_candidate b k\<close> is the slug tried in round \<open>k\<close>.
\<close>

definition slug_candidate :: "string \<Rightarrow> nat \<Rightarrow> string" where
  "slug_candidate b k = (if k = 0 then b else b @ ''-'' @ decimal k)"

section \<open>A sample store\<close>

text \<open>
  Two organizations (1 and 2), four users, one of them the placeholder of a pending
  invite, and four tasks, used to run the routes on concrete requests. \<open>demo_dates\<close>
  knows one date string; \<open>demo_auth\<close> stands for the validation and hashing libraries.
\<close>

definition demo_dates :: datelib where
  "demo_dates =
     \<lparr>isISO8601 = (\<lambda>s. s = ''2030-01-01T00:00:00.000Z''),
      newDate = (\<lambda>s. if s = ''2030-01-01T00:00:00.000Z'' then Some 1893456000000 else None)\<rparr>"

definition demo_auth :: authlib where
  "demo_auth =
     \<lparr>isEmail = (\<lambda>s. CHR ''@'' \<in> set s),
      normalizeEmail = toLowerCase,
      bcrypt_hash = (\<lambda>s. ''bcrypt:'' @ s),
      bcrypt_compare = (\<lambda>s h. h = ''bcrypt:'' @ s)\<rparr>"

definition acme_admin :: user where
  "acme_admin =
     \<lparr>uid = 10, name = ''Ada'', email = ''ada@acme.test'', password = ''bcrypt:correct-horse'',
      userOrganization = Some 1, role = Admin, isActive = True, lastLogin = None,
      inviteToken = None, inviteExpires = None\<rparr>"

definition acme_member :: user where
  "acme_member =
     \<lparr>uid = 11, name = ''Bob'', email = ''bob@acme.test'', password = ''bcrypt:battery'',
      userOrganization = Some 1, role = Member, isActive = True, lastLogin = None,
      inviteToken = None, inviteExpires = None\<rparr>"

definition pending_invite :: user where
  "pending_invite =
     \<lparr>uid = 12, name = ''Invited User'', email = ''carl@acme.test'',
      password = ''bcrypt:temporary'', userOrganization = Some 1, role = Member,
      isActive = False, lastLogin = None, inviteToken = Some ''tok-7f3a'',
      inviteExpires = Some 604801000\<rparr>"

definition globex_admin :: user where
  "globex_admin =
     \<lparr>uid = 20, name = ''Eve'', email = ''eve@globex.test'', password = ''bcrypt:staple'',
      userOrganization = Some 2, role = Admin, isActive = True, lastLogin = None,
      inviteToken = None, inviteExpires = None\<rparr>"

definition acme_org :: org where
  "acme_org =
     \<lparr>orgId = 1, orgName = ''Acme Corp'', slug = ''acme-corp'', orgDescription = None,
      theme = ''light'', allowPublicSignup = False, defaultRole = ''Member'',
      orgIsActive = True, orgCreatedBy = 10\<rparr>"

definition globex_org :: org where
  "globex_org =
     \<lparr>orgId = 2, orgName = ''Globex'', slug = ''globex'', orgDescription = None,
      theme = ''light'', allowPublicSignup = False, defaultRole = ''Member'',
      orgIsActive = True, orgCreatedBy = 20\<rparr>"

definition task_a :: task where
  "task_a =
     \<lparr>tid = 100, title = ''Fix login'', description = None, status = Todo,
      priority = Medium, category = Bug, dueDate = Some 3000, completedAt = None,
      assignedTo = Some 11, createdBy = 10, organization = 1, comments = [], attachments = [],
      createdAt = 1000, updatedAt = 1000\<rparr>"

definition task_b :: task where
  "task_b =
     \<lparr>tid = 101, title = ''Ship report'', description = None, status = Completed,
      priority = High, category = Feature, dueDate = None, completedAt = Some 1500,
      assignedTo = None, createdBy = 10, organization = 1, comments = [], attachments = [],
      createdAt = 1100, updatedAt = 1500\<rparr>"

definition task_c :: task where
  "task_c =
     \<lparr>tid = 200, title = ''Audit'', description = None, status = InProgress,
      priority = Low, category = Improvement, dueDate = Some 9000, completedAt = None,
      assignedTo = None, createdBy = 20, organization = 2, comments = [], attachments = [],
      createdAt = 1200, updatedAt = 1200\<rparr>"

definition task_d :: task where
  "task_d =
     \<lparr>tid = 201, title = ''Renew licence'', description = None, status = Expired,
      priority = Low, category = Improvement, dueDate = Some 500, completedAt = None,
      assignedTo = None, createdBy = 20, organization = 2, comments = [], attachments = [],
      createdAt = 1300, updatedAt = 2000\<rparr>"

definition demo_db :: db where
  "demo_db =
     \<lparr>users = [acme_admin, acme_member, pending_invite, globex_admin],
      orgs = [acme_org, globex_org],
      tasks = [task_a, task_b, task_c, task_d]\<rparr>"

text \<open>The path parameters of the four tasks: 100, 101, 200 and 201 in hexadecimal.\<close>

definition id_a :: string where "id_a = ''000000000000000000000064''"
definition id_b :: string where "id_b = ''000000000000000000000065''"
definition id_d :: string where "id_d = ''0000000000000000000000c9''"

text \<open>A list query, and request bodies of the auth routes.\<close>

definition demo_query :: list_query where
  "demo_query =
     \<lparr>q_page = Some 1, q_limit = Some 5, q_status = Some ''Todo'', q_priority = None,
      q_category = None, q_assignedTo = None\<rparr>"


definition register_acme_again :: body where
  "register_acme_again =
     [(''name'', JStr ''Zoe''), (''email'', JStr ''zoe@other.test''),
      (''password'', JStr ''hunter22''), (''organizationName'', JStr ''ACME  corp!'')]"

definition join_carla :: body where
  "join_carla =
     [(''name'', JStr ''Carla''), (''email'', JStr ''carla@acme.test''),
      (''password'', JStr ''sesame1''), (''inviteToken'', JStr ''tok-7f3a'')]"

definition join_dora :: body where
  "join_dora =
     [(''name'', JStr ''Dora''), (''email'', JStr ''dora@acme.test''),
      (''password'', JStr ''sesame2''), (''inviteToken'', JStr ''tok-7f3a'')]"

section \<open>Lemmas on the task routes\<close>

lemmas demo_defs =
  demo_dates_def acme_admin_def acme_member_def globex_admin_def
  task_a_def task_b_def task_c_def task_d_def demo_db_def

lemmas cast_defs = castObjectId_def isMongoId_def hex_value_def

lemma cast_id_a: "castObjectId id_a = Some 100"
  by (simp add: id_a_def cast_defs)

lemma cast_id_b: "castObjectId id_b = Some 101"
  by (simp add: id_b_def cast_defs)


lemma cast_org_2: "castObjectId ''000000000000000000000002'' = Some 2"
  by (simp add: cast_defs)

lemma cast_id_d: "castObjectId id_d = Some 201"
  by (simp add: id_d_def cast_defs)



lemma keys_sanitize_trim: "keys (sanitize_trim f b) = keys b"
  by (induction b) (auto simp: keys_def sanitize_trim_def)

lemma body_get_sanitize_trim:
  "body_get (sanitize_trim f b) k =
     (if k = f then map_option (\<lambda>v. JStr (trim (str_of v))) (body_get b k) else body_get b k)"
  by (induction b) (auto simp: body_get_def sanitize_trim_def)

lemma find_task_SomeD:
  "find_task i organizationId ts = Some t \<Longrightarrow>
     t \<in> set ts \<and> tid t = i \<and> organization t = organizationId"
  by (auto simp: find_task_def find_Some_iff)

lemma body_get_key: "k \<in> set (keys b) \<Longrightarrow> \<exists>v. body_get b k = Some v"
  by (induction b) (auto simp: keys_def body_get_def)

lemma body_get_absent: "k \<notin> set (keys b) \<Longrightarrow> body_get b k = None"
  by (induction b) (auto simp: keys_def body_get_def)

lemma within_task_paths_absent:
  assumes "within_task_paths b"
  shows "''_id'' \<notin> set (keys b)" and "''isNew'' \<notin> set (keys b)"
proof -
  have "''_id'' \<notin> set task_paths" "''isNew'' \<notin> set task_paths"
    by (simp_all add: task_paths_def)
  with assms show "''_id'' \<notin> set (keys b)" and "''isNew'' \<notin> set (keys b)"
    unfolding within_task_paths_def list_all_iff by blast+
qed

lemma assign_tid: "k \<noteq> ''_id'' \<Longrightarrow> assign L t k v = Some t' \<Longrightarrow> tid t' = tid t"
  by (auto simp: assign_def Let_def split: if_splits option.splits jval.splits)

lemma put_field_tid: "k \<noteq> ''_id'' \<Longrightarrow> put_field L b t k = Some t' \<Longrightarrow> tid t' = tid t"
  by (auto simp: put_field_def dest: assign_tid split: if_splits option.splits)

lemma copy_fields_tid:
  "''_id'' \<notin> set ks \<Longrightarrow> copy_fields L b ks t = Some t' \<Longrightarrow> tid t' = tid t"
proof (induction ks arbitrary: t)
  case Nil
  then show ?case by simp
next
  case (Cons k ks)
  from Cons.prems(2) obtain t1 where s: "put_field L b t k = Some t1"
    and r: "copy_fields L b ks t1 = Some t'" by (auto split: option.splits)
  from Cons.prems(1) have "k \<noteq> ''_id''" "''_id'' \<notin> set ks" by auto
  with Cons.IH [OF _ r] put_field_tid [OF _ s] show ?case by simp
qed

lemma assign_createdAt: "assign L t k v = Some t' \<Longrightarrow> createdAt t' = createdAt t"
  by (auto simp: assign_def Let_def split: if_splits option.splits jval.splits)

lemma put_field_createdAt: "put_field L b t k = Some t' \<Longrightarrow> createdAt t' = createdAt t"
  by (auto simp: put_field_def dest: assign_createdAt split: if_splits option.splits)

lemma copy_fields_createdAt: "copy_fields L b ks t = Some t' \<Longrightarrow> createdAt t' = createdAt t"
  by (induction ks arbitrary: t) (auto split: option.splits dest: put_field_createdAt)

lemma task_pre_save_keeps [simp]:
  "tid (task_pre_save now m t) = tid t"
  "status (task_pre_save now m t) = status t"
  "organization (task_pre_save now m t) = organization t"
  "createdAt (task_pre_save now m t) = createdAt t"
  "updatedAt (task_pre_save now m t) = updatedAt t"
  by (simp_all add: task_pre_save_def)

lemma timestamps_pre_save_keeps [simp]:
  "tid (timestamps_pre_save now n m t) = tid t"
  "status (timestamps_pre_save now n m t) = status t"
  "organization (timestamps_pre_save now n m t) = organization t"
  "completedAt (timestamps_pre_save now n m t) = completedAt t"
  "createdAt (timestamps_pre_save now n m t) = createdAt t"
  by (simp_all add: timestamps_pre_save_def)

lemma apply_delta_keeps [simp]:
  "tid (apply_delta t doc x) = tid x"
  "createdAt (apply_delta t doc x) = createdAt x"
  by (simp_all add: apply_delta_def)

lemma apply_delta_self:
  "tid doc = tid t \<Longrightarrow> createdAt doc = createdAt t \<Longrightarrow> apply_delta t doc t = doc"
  by (cases t, cases doc) (simp add: apply_delta_def)

lemma apply_delta_status:
  "status (apply_delta t doc x) = (if status doc = status t then status x else status doc)"
  by (simp add: apply_delta_def)

lemma apply_delta_organization:
  "organization (apply_delta t doc x) =
     (if organization doc = organization t then organization x else organization doc)"
  by (simp add: apply_delta_def)

lemma assign_status:
  "assign L t k v = Some t' \<Longrightarrow>
     (if k = ''status'' then status_of (str_opt v) = Some (status t') else status t' = status t)"
  by (auto simp: assign_def Let_def split: if_splits option.splits jval.splits)

lemma put_field_status:
  "put_field L b t k = Some t' \<Longrightarrow>
     (if k = ''status'' then status_of (str_opt (body_get b ''status'')) = Some (status t')
      else status t' = status t)"
  unfolding put_field_def
  by (auto split: if_splits option.splits dest: assign_status)

lemma copy_fields_status:
  "copy_fields L b ks t = Some t' \<Longrightarrow>
     status t' = status t \<or> status_of (str_opt (body_get b ''status'')) = Some (status t')"
proof (induction ks arbitrary: t)
  case Nil
  then show ?case by simp
next
  case (Cons k ks)
  from Cons.prems obtain t1 where s: "put_field L b t k = Some t1"
    and r: "copy_fields L b ks t1 = Some t'"
    by (auto split: option.splits)
  from Cons.IH [OF r] put_field_status [OF s] show ?case
    by (auto split: if_splits)
qed

lemma validate_put_status:
  assumes "validate_put L b = []"
  shows "status_of (str_opt (body_get b ''status'')) \<noteq> Some Expired"
proof -
  from assms have "optional b ''status'' (isIn [''Todo'', ''In Progress'', ''Completed'']) = []"
    by (simp add: validate_put_def)
  then show ?thesis
    by (auto simp: optional_def isIn_def str_opt_def status_of_def split: option.splits if_splits)
qed

text \<open>
  The tail of the update handler for a body whose keys are in \<open>task_paths\<close>: either the
  store is as before, or the stored documents under the id of the loaded task got the
  modified paths of the saved document.
\<close>

lemma put_apply_tasks:
  assumes "within_task_paths b"
  shows "tasks (snd (put_apply L b now t d)) = tasks d \<or>
   (\<exists>doc. copy_fields L b (keys b) t = Some doc \<and> tid doc = tid t \<and>
      createdAt doc = createdAt t \<and>
      tasks (snd (put_apply L b now t d)) =
        map (\<lambda>x. if tid x = tid t
                 then apply_delta t (task_pre_save now (status doc \<noteq> status t)
                                       (timestamps_pre_save now False (doc \<noteq> t) doc)) x
                 else x) (tasks d))"
proof (cases "copy_fields L b (keys b) t")
  case None
  then show ?thesis by (simp add: put_apply_def)
next
  case (Some doc)
  have n: "\<not> truthy (body_get b ''isNew'')"
    using within_task_paths_absent(2) [OF assms] by (simp add: body_get_absent)
  have i: "tid doc = tid t"
    using within_task_paths_absent(1) [OF assms] Some by (rule copy_fields_tid)
  have c: "createdAt doc = createdAt t" using Some by (rule copy_fields_createdAt)
  show ?thesis
    using Some n i c by (simp add: put_apply_def save_task_def Let_def)
qed

lemma put_apply_expired:
  assumes "within_task_paths b" and "t \<in> set (tasks d)"
    and "status_of (str_opt (body_get b ''status'')) \<noteq> Some Expired"
    and "x \<in> set (tasks (snd (put_apply L b now t d)))" and "status x = Expired"
  shows "\<exists>y \<in> set (tasks d). tid y = tid x \<and> status y = Expired"
proof -
  from put_apply_tasks [OF assms(1), of L now t d]
  consider "tasks (snd (put_apply L b now t d)) = tasks d"
    | doc where "copy_fields L b (keys b) t = Some doc"
      "tasks (snd (put_apply L b now t d)) =
        map (\<lambda>x. if tid x = tid t
                 then apply_delta t (task_pre_save now (status doc \<noteq> status t)
                                       (timestamps_pre_save now False (doc \<noteq> t) doc)) x
                 else x) (tasks d)"
    by blast
  then show ?thesis
  proof cases
    case 1
    with assms(4,5) show ?thesis by auto
  next
    case 2
    let ?saved = "task_pre_save now (status doc \<noteq> status t)
                    (timestamps_pre_save now False (doc \<noteq> t) doc)"
    have st: "status ?saved \<noteq> status t \<Longrightarrow> status ?saved \<noteq> Expired"
      using copy_fields_status [OF 2(1)] assms(3) by auto
    from assms(4) 2(2) obtain y where y: "y \<in> set (tasks d)"
      "x = (if tid y = tid t then apply_delta t ?saved y else y)" by auto
    show ?thesis
    proof (cases "tid y = tid t")
      case False
      with y assms(5) show ?thesis by auto
    next
      case True
      with y(2) have x: "x = apply_delta t ?saved y" by simp
      with assms(5) st have "status y = Expired"
        by (auto simp: apply_delta_status split: if_splits)
      with y(1) x show ?thesis by auto
    qed
  qed
qed

lemma put_task_outcome:
  "snd (put_task L actor idp b now d) = d \<or>
   (validate_put L b = [] \<and>
    (case userOrganization actor of
       None \<Rightarrow> False
     | Some organizationId \<Rightarrow>
         (case castObjectId idp of
            None \<Rightarrow> False
          | Some i \<Rightarrow>
              (case find_task i organizationId (tasks d) of
                 None \<Rightarrow> False
               | Some t \<Rightarrow>
                   put_task L actor idp b now d =
                     put_apply L (sanitize_trim ''title'' b) now t d))))"
  by (simp add: put_task_def tenantIsolation_def Let_def split: option.split)

lemma within_task_paths_sanitize [simp]:
  "within_task_paths (sanitize_trim f b) = within_task_paths b"
  by (simp add: within_task_paths_def keys_sanitize_trim)

lemma put_task_expired:
  assumes "within_task_paths b"
    and "x \<in> set (tasks (snd (put_task L actor idp b now d)))" and "status x = Expired"
  shows "\<exists>y \<in> set (tasks d). tid y = tid x \<and> status y = Expired"
proof (cases "snd (put_task L actor idp b now d) = d")
  case True
  with assms show ?thesis by auto
next
  case False
  with put_task_outcome [of L actor idp b now d]
  obtain organizationId i t where v: "validate_put L b = []"
    and f: "find_task i organizationId (tasks d) = Some t"
    and e: "put_task L actor idp b now d = put_apply L (sanitize_trim ''title'' b) now t d"
    by (auto split: option.splits)
  have a: "status_of (str_opt (body_get (sanitize_trim ''title'' b) ''status'')) \<noteq> Some Expired"
    using validate_put_status [OF v] by (simp add: body_get_sanitize_trim)
  have m: "t \<in> set (tasks d)" using find_task_SomeD [OF f] by simp
  have w: "within_task_paths (sanitize_trim ''title'' b)" using assms(1) by simp
  from assms(2) have "x \<in> set (tasks (snd (put_apply L (sanitize_trim ''title'' b) now t d)))"
    by (simp add: e)
  with w m a show ?thesis using assms(3) by (rule put_apply_expired)
qed

lemma post_task_outcome:
  "snd (post_task L actor b now i d) = d \<or>
   (case userOrganization actor of
      None \<Rightarrow> False
    | Some organizationId \<Rightarrow>
        post_task L actor b now i d =
          post_create L (sanitize_trim ''title'' b) actor organizationId now i d)"
  by (simp add: post_task_def tenantIsolation_def Let_def split: option.split)

lemma new_task_fields:
  "new_task L b actor organizationId now i = Some t \<Longrightarrow> status t = Todo \<and> completedAt t = None"
  by (auto simp: new_task_def Let_def split: option.splits if_splits)

lemma post_create_fields:
  assumes "x \<in> set (tasks (snd (post_create L b actor organizationId now i d)))"
  shows "x \<in> set (tasks d) \<or> status x = Todo \<and> completedAt x = None"
proof (cases "new_task L b actor organizationId now i")
  case None
  with assms show ?thesis by (simp add: post_create_def)
next
  case (Some t)
  from new_task_fields [OF Some] have "task_pre_save now False t = t"
    by (simp add: task_pre_save_def)
  with Some assms new_task_fields [OF Some] show ?thesis
    by (auto simp: post_create_def Let_def)
qed

lemma post_create_status:
  "x \<in> set (tasks (snd (post_create L b actor organizationId now i d))) \<Longrightarrow>
     x \<in> set (tasks d) \<or> status x = Todo"
  by (auto dest: post_create_fields)

lemma post_task_expired:
  assumes "x \<in> set (tasks (snd (post_task L actor b now i d)))" and "status x = Expired"
  shows "x \<in> set (tasks d)"
proof (cases "snd (post_task L actor b now i d) = d")
  case True
  with assms(1) show ?thesis by simp
next
  case False
  with post_task_outcome [of L actor b now i d]
  obtain organizationId where "post_task L actor b now i d =
      post_create L (sanitize_trim ''title'' b) actor organizationId now i d"
    by (auto split: option.splits)
  with assms(1) have "x \<in> set (tasks d) \<or> status x = Todo"
    by (simp add: post_create_status)
  with assms(2) show ?thesis by simp
qed

lemma delete_task_subset:
  "x \<in> set (tasks (snd (delete_task actor idp d))) \<Longrightarrow> x \<in> set (tasks d)"
  using set_remove1_subset [of _ "tasks d"]
  by (simp add: delete_task_def tenantIsolation_def split: option.splits if_splits) blast+

lemma request_step_expired:
  assumes "request_step L d d'" and "x \<in> set (tasks d')" and "status x = Expired"
  shows "\<exists>y \<in> set (tasks d). tid y = tid x \<and> status y = Expired"
  using assms
proof (cases rule: request_step.cases)
  case (create actor b now i)
  with assms(2,3) show ?thesis by (auto dest: post_task_expired)
next
  case (update b actor idp now)
  with assms(2,3) show ?thesis by (auto dest: put_task_expired)
next
  case (remove actor idp)
  with assms(2,3) show ?thesis by (auto dest: delete_task_subset)
qed

lemma copy_status_only:
  assumes "list_all (\<lambda>k. k = ''status'') ks" and "status_of (str_opt (body_get b ''status'')) = Some st"
  shows "copy_fields L b ks t = Some (if ks = [] then t else t\<lparr>status := st\<rparr>)"
  using assms(1)
proof (induction ks arbitrary: t)
  case Nil
  show ?case by simp
next
  case (Cons k ks)
  then have k: "k = ''status''" and r: "list_all (\<lambda>k. k = ''status'') ks" by simp_all
  have "put_field L b t k = Some (t\<lparr>status := st\<rparr>)"
    using assms(2) by (simp add: k put_field_def assign_def)
  with Cons.IH [OF r, of "t\<lparr>status := st\<rparr>"] show ?case by simp
qed

lemma expiry_match_iff:
  "expiry_match now t \<longleftrightarrow>
     (\<exists>due. dueDate t = Some due \<and> due < now) \<and> status t \<noteq> Completed \<and> status t \<noteq> Expired"
  by (auto simp: expiry_match_def split: option.splits)

lemma expiry_match_after: "\<not> expiry_match now' (t\<lparr>status := Expired, updatedAt := u\<rparr>)"
  by (simp add: expiry_match_def)

lemma count_changed:
  "count (\<lambda>(t, t'). t' \<noteq> t)
     (zip ts (map (\<lambda>t. if expiry_match now t then t\<lparr>status := Expired, updatedAt := now\<rparr> else t) ts))
     = length (filter (expiry_match now) ts)"
proof (induction ts)
  case Nil
  show ?case by (simp add: count_def)
next
  case (Cons t ts)
  have "expiry_match now t \<Longrightarrow> t\<lparr>status := Expired, updatedAt := now\<rparr> \<noteq> t"
    by (auto simp: expiry_match_def dest: arg_cong [where f = status])
  with Cons show ?case by (simp add: count_def)
qed

lemma slug_loop_result:
  "s = slug_candidate b m \<Longrightarrow> n = Suc m \<Longrightarrow>
     \<exists>k\<ge>m. slug_loop os i b s n = slug_candidate b k \<and>
           \<not> slug_taken os i (slug_candidate b k) \<and>
           (\<forall>j. m \<le> j \<and> j < k \<longrightarrow> slug_taken os i (slug_candidate b j))"
proof (induction os i b s n arbitrary: m rule: slug_loop.induct)
  case (1 os i b s n)
  show ?case
  proof (cases "slug_taken os i s")
    case False
    then have "slug_loop os i b s n = s" by (subst slug_loop.simps) simp
    with False "1.prems" show ?thesis by (intro exI [of _ m]) auto
  next
    case True
    have c: "suffixed b n = slug_candidate b (Suc m)"
      using "1.prems" by (simp add: slug_candidate_def suffixed_def)
    have n: "Suc n = Suc (Suc m)" using "1.prems" by simp
    from "1.IH" [OF True c n]
    obtain k where k: "Suc m \<le> k" "slug_loop os i b (suffixed b n) (Suc n) = slug_candidate b k"
      "\<not> slug_taken os i (slug_candidate b k)"
      "\<forall>j. Suc m \<le> j \<and> j < k \<longrightarrow> slug_taken os i (slug_candidate b j)"
      using "1.prems" by auto
    have "slug_loop os i b s n = slug_candidate b k"
      using True k(2) by (subst slug_loop.simps) simp
    moreover have "\<forall>j. m \<le> j \<and> j < k \<longrightarrow> slug_taken os i (slug_candidate b j)"
    proof (intro allI impI)
      fix j assume "m \<le> j \<and> j < k"
      then consider "j = m" | "Suc m \<le> j \<and> j < k" by linarith
      then show "slug_taken os i (slug_candidate b j)"
        using True "1.prems" k(4) by cases auto
    qed
    ultimately show ?thesis using k(1,3) by (intro exI [of _ k]) auto
  qed
qed

lemma pre_save_slug:
  "\<exists>k. slug (organization_pre_save os True this) = slug_candidate (baseSlug (orgName this)) k \<and>
       \<not> slug_taken os (orgId this) (slug_candidate (baseSlug (orgName this)) k) \<and>
       (\<forall>j<k. slug_taken os (orgId this) (slug_candidate (baseSlug (orgName this)) j))"
proof -
  have "baseSlug (orgName this) = slug_candidate (baseSlug (orgName this)) 0"
    by (simp add: slug_candidate_def)
  from slug_loop_result [OF this, of 1 os "orgId this"]
  show ?thesis by (auto simp: organization_pre_save_def)
qed

lemma pre_save_keeps [simp]:
  "orgId (organization_pre_save os m this) = orgId this"
  "orgName (organization_pre_save os m this) = orgName this"
  by (simp_all add: organization_pre_save_def)

lemma pre_save_ignores_given_slug:
  "organization_pre_save os True (this\<lparr>slug := s\<rparr>) = organization_pre_save os True this"
  by (simp add: organization_pre_save_def)

lemma pre_save_free: "\<not> slug_taken os (orgId this) (slug (organization_pre_save os True this))"
  using pre_save_slug [of os this] by auto

lemma slug_taken_iff:
  "slug_taken os i s \<longleftrightarrow> (\<exists>g \<in> set os. slug g = s \<and> orgId g \<noteq> i)"
  by (auto simp: slug_taken_def find_None_iff)

lemma insert_distinct:
  assumes "distinct (map slug os)" and "organization_insert this os = Some os'"
  shows "distinct (map slug os')"
proof -
  define doc where "doc = organization_pre_save os True this"
  from assms(2) have "\<not> list_ex (\<lambda>g. orgId g = orgId doc \<or> slug g = slug doc) os"
    and os': "os' = os @ [doc]"
    by (auto simp: organization_insert_def Let_def doc_def split: if_splits)
  then have "slug doc \<notin> slug ` set os" by (auto simp: list_ex_iff)
  with assms(1) show ?thesis by (simp add: os')
qed

lemma insert_succeeds:
  assumes "orgId this \<notin> orgId ` set os" and "organization_validate this"
  shows "organization_insert this os = Some (os @ [organization_pre_save os True this])"
proof -
  have "\<not> (\<exists>g \<in> set os. orgId g = orgId this \<or> slug g = slug (organization_pre_save os True this))"
  proof
    assume "\<exists>g \<in> set os. orgId g = orgId this \<or> slug g = slug (organization_pre_save os True this)"
    then obtain g where g: "g \<in> set os"
      "orgId g = orgId this \<or> slug g = slug (organization_pre_save os True this)" by blast
    from g(1) assms(1) have "orgId g \<noteq> orgId this" by (auto simp: image_iff)
    with g pre_save_free [of os this] show False by (auto simp: slug_taken_iff)
  qed
  then have "\<not> list_ex (\<lambda>g. orgId g = orgId this \<or> slug g = slug (organization_pre_save os True this)) os"
    by (simp add: list_ex_iff)
  with assms(2) show ?thesis by (simp add: organization_insert_def Let_def)
qed

lemma replace_distinct:
  "distinct (map slug gs) \<Longrightarrow> distinct (map orgId gs) \<Longrightarrow>
   (\<forall>g \<in> set gs. orgId g \<noteq> i \<longrightarrow> slug g \<noteq> slug doc) \<Longrightarrow>
   distinct (map slug (map (\<lambda>g. if orgId g = i then doc else g) gs))"
proof (induction gs)
  case Nil
  show ?case by simp
next
  case (Cons g gs)
  have ih: "distinct (map slug (map (\<lambda>g. if orgId g = i then doc else g) gs))"
    using Cons by simp
  have "slug (if orgId g = i then doc else g) \<noteq> slug (if orgId x = i then doc else x)"
    if x: "x \<in> set gs" for x
  proof (cases "orgId g = i")
    case True
    with x Cons.prems(2) have "orgId x \<noteq> i" by (auto simp: image_iff)
    with True x Cons.prems(3) show ?thesis by auto
  next
    case False
    show ?thesis
    proof (cases "orgId x = i")
      case True
      with False Cons.prems(3) show ?thesis by auto
    next
      case x': False
      from x Cons.prems(1) have "slug g \<noteq> slug x" by (auto simp: image_iff)
      with False x' show ?thesis by simp
    qed
  qed
  then have "slug (if orgId g = i then doc else g)
      \<notin> set (map slug (map (\<lambda>g. if orgId g = i then doc else g) gs))"
    by (auto simp: image_iff)
  with ih show ?case by simp
qed

lemma update_distinct:
  assumes "distinct (map slug os)" and "organization_save m this os = Some os'"
    and "distinct (map orgId os)"
  shows "distinct (map slug os')"
proof -
  define doc where "doc = organization_pre_save os m this"
  from assms(2) have free: "\<not> slug_taken os (orgId doc) (slug doc)"
    and os': "os' = map (\<lambda>g. if orgId g = orgId doc then doc else g) os"
    by (auto simp: organization_save_def Let_def doc_def split: if_splits)
  from free have "\<forall>g \<in> set os. orgId g \<noteq> orgId doc \<longrightarrow> slug g \<noteq> slug doc"
    by (auto simp: slug_taken_iff)
  with assms(1,3) show ?thesis unfolding os' by (rule replace_distinct)
qed


lemma insert_ids:
  assumes "distinct (map orgId os)" and "organization_insert this os = Some os'"
  shows "distinct (map orgId os')"
proof -
  from assms(2) have "\<not> list_ex (\<lambda>g. orgId g = orgId this \<or>
      slug g = slug (organization_pre_save os True this)) os"
    and os': "os' = os @ [organization_pre_save os True this]"
    by (auto simp: organization_insert_def Let_def split: if_splits)
  then have "orgId this \<notin> orgId ` set os" by (auto simp: list_ex_iff)
  with assms(1) show ?thesis by (simp add: os')
qed

lemma update_ids:
  assumes "organization_save m this os = Some os'"
  shows "map orgId os' = map orgId os"
proof -
  from assms have "os' = map (\<lambda>g. if orgId g = orgId this then organization_pre_save os m this else g) os"
    by (auto simp: organization_save_def Let_def split: if_splits)
  then show ?thesis by (simp add: comp_def if_distrib [of orgId] cong: if_cong)
qed

lemma register_orgs:
  "orgs (snd (register A b i j d)) = orgs d \<or>
   organization_insert
     (new_organization j (trim (str_opt (body_get b ''organizationName''))) i) (orgs d) =
     Some (orgs (snd (register A b i j d)))"
  by (simp add: register_def Let_def split: option.split)

lemma put_settings_orgs:
  "orgs (snd (put_settings actor b d)) = orgs d \<or>
   (\<exists>m this. organization_save m this (orgs d) = Some (orgs (snd (put_settings actor b d))))"
proof (cases "orgs (snd (put_settings actor b d)) = orgs d")
  case True
  then show ?thesis by simp
next
  case False
  then obtain organizationId current where c: "userOrganization actor = Some organizationId"
    "find (\<lambda>g. orgId g = organizationId) (orgs d) = Some current"
    by (auto simp: put_settings_def tenantIsolation_def Let_def split: option.splits if_splits)
  define g2 where "g2 = assign_settings (sanitize_trim ''name'' b) current"
  from False c have "organization_save (orgName g2 \<noteq> orgName current) g2 (orgs d)
      = Some (orgs (snd (put_settings actor b d)))"
    by (auto simp: put_settings_def tenantIsolation_def Let_def g2_def split: option.splits if_splits)
  then show ?thesis by blast
qed

lemma find_append_Some: "find P xs = Some x \<Longrightarrow> find P (xs @ ys) = Some x"
  by (induction xs) (auto split: if_splits)

lemma find_stronger:
  "find P xs = Some p \<Longrightarrow> (\<And>x. Q x \<Longrightarrow> P x) \<Longrightarrow> Q p \<Longrightarrow> find Q xs = Some p"
  by (induction xs) (auto split: if_splits)

lemma invite_match_earlier:
  "now1 \<le> now2 \<Longrightarrow> invite_match tok now2 u \<Longrightarrow> invite_match tok now1 u"
  by (auto simp: invite_match_def split: option.splits)

lemma user_insert_Some:
  "user_insert A u us = Some us' \<Longrightarrow> us' = us @ [user_pre_save A True u]"
  by (auto simp: user_insert_def Let_def split: if_splits)

lemma user_pre_save_keeps [simp]:
  "uid (user_pre_save A m u) = uid u"
  "email (user_pre_save A m u) = email u"
  "role (user_pre_save A m u) = role u"
  "userOrganization (user_pre_save A m u) = userOrganization u"
  by (simp_all add: user_pre_save_def)

lemma new_member_simps [simp]:
  "uid (new_member i nm em pw g) = i"
  "email (new_member i nm em pw g) = schema_email em"
  "role (new_member i nm em pw g) = Member"
  "userOrganization (new_member i nm em pw g) = Some g"
  by (simp_all add: new_member_def)

lemma populate_SomeD: "populate r os = Some g \<Longrightarrow> r = Some (orgId g)"
  by (auto simp: populate_def find_Some_iff split: option.splits)

lemma join_success:
  assumes "join A b now i d = (Json c v, d')"
  shows "\<exists>p g. validate_join A b = [] \<and>
           find (invite_match (body_get b ''inviteToken'') now) (users d) = Some p \<and>
           populate (userOrganization p) (orgs d) = Some g \<and> c = 201 \<and>
           d' = d\<lparr>users := users d @
                  [user_pre_save A True
                     (new_member i (trim (str_opt (body_get b ''name'')))
                        (normalizeEmail A (str_opt (body_get b ''email'')))
                        (str_opt (body_get b ''password'')) (orgId g))]\<rparr>"
  using assms
  by (auto simp: join_def Let_def split: if_splits option.splits dest!: user_insert_Some)

lemma login_failures_identical:
  assumes "validate_login A b = []" and "body_get b ''password'' = Some (JStr pw)"
    and "case find (\<lambda>u. email u = schema_email (normalizeEmail A (str_opt (body_get b ''email'')))
                          \<and> isActive u) (users d) of
           None \<Rightarrow> True
         | Some u \<Rightarrow> \<not> bcrypt_compare A pw (password u)"
  shows "login A b now d = (Message 400 ''Invalid credentials'', d)"
proof (cases "find (\<lambda>u. email u = schema_email (normalizeEmail A (str_opt (body_get b ''email'')))
                          \<and> isActive u) (users d)")
  case None
  with assms(1) show ?thesis by (simp add: login_def Let_def)
next
  case (Some u)
  with assms(3) have "\<not> bcrypt_compare A pw (password u)" by simp
  with Some assms(1,2) show ?thesis by (simp add: login_def Let_def comparePassword_def)
qed

lemma put_settings_success:
  assumes "put_settings actor b d = (Json c g, d')"
    and "userOrganization actor = Some organizationId"
    and "find (\<lambda>x. orgId x = organizationId) (orgs d) = Some current"
  shows "\<exists>g2. orgId g2 = orgId current \<and>
           g = organization_pre_save (orgs d) (orgName g2 \<noteq> orgName current) g2 \<and>
           organization_save (orgName g2 \<noteq> orgName current) g2 (orgs d) = Some (orgs d')"
proof -
  define g2 where "g2 = assign_settings (sanitize_trim ''name'' b) current"
  have id: "orgId g2 = orgId current"
    by (simp add: g2_def assign_settings_def Let_def split: option.splits jval.splits)
  have az: "authorize [Admin] actor"
  proof (rule ccontr)
    assume "\<not> authorize [Admin] actor"
    with assms(1,2) show False
      by (simp add: put_settings_def tenantIsolation_def forbidden_def)
  qed
  have v: "validate_settings b = []"
  proof (rule ccontr)
    assume "validate_settings b \<noteq> []"
    with assms(1,2) az show False by (simp add: put_settings_def tenantIsolation_def)
  qed
  have "put_settings actor b d =
    (case organization_save (orgName g2 \<noteq> orgName current) g2 (orgs d) of
        None \<Rightarrow> (Message 500 ''Server error'', d)
      | Some os1 \<Rightarrow>
          (Json 200 (organization_pre_save (orgs d) (orgName g2 \<noteq> orgName current) g2),
           d\<lparr>orgs := os1\<rparr>))"
    using az v assms(2,3) unfolding g2_def
    by (simp add: put_settings_def tenantIsolation_def Let_def)
  with assms(1) have
    "(case organization_save (orgName g2 \<noteq> orgName current) g2 (orgs d) of
        None \<Rightarrow> (Message 500 ''Server error'', d)
      | Some os1 \<Rightarrow>
          (Json 200 (organization_pre_save (orgs d) (orgName g2 \<noteq> orgName current) g2),
           d\<lparr>orgs := os1\<rparr>)) = (Json c g, d')"
    by simp
  then have "g = organization_pre_save (orgs d) (orgName g2 \<noteq> orgName current) g2 \<and>
      organization_save (orgName g2 \<noteq> orgName current) g2 (orgs d) = Some (orgs d')"
    by (auto split: option.splits)
  with id show ?thesis by blast
qed

text \<open>
  What the update handler keeps for a body whose keys are in \<open>task_paths\<close>, without the
  key \<open>organization\<close> or \<open>completedAt\<close>: the organization of every task, and the
  \<open>completedAt\<close> invariant, which create requests and the expiration job keep as well.
\<close>

lemma assign_other_paths:
  "assign L t k v = Some t' \<Longrightarrow>
     (k \<noteq> ''organization'' \<longrightarrow> organization t' = organization t) \<and>
     (k \<noteq> ''completedAt'' \<longrightarrow> completedAt t' = completedAt t)"
  by (auto simp: assign_def Let_def split: if_splits option.splits jval.splits)

lemma put_field_other_paths:
  "put_field L b t k = Some t' \<Longrightarrow>
     (k \<noteq> ''organization'' \<longrightarrow> organization t' = organization t) \<and>
     (k \<noteq> ''completedAt'' \<longrightarrow> completedAt t' = completedAt t)"
  unfolding put_field_def
  by (auto split: if_splits option.splits dest: assign_other_paths)

lemma copy_fields_organization:
  "''organization'' \<notin> set ks \<Longrightarrow> copy_fields L b ks t = Some t' \<Longrightarrow>
     organization t' = organization t"
proof (induction ks arbitrary: t)
  case Nil
  then show ?case by simp
next
  case (Cons k ks)
  from Cons.prems(2) obtain t1 where s: "put_field L b t k = Some t1"
    and r: "copy_fields L b ks t1 = Some t'" by (auto split: option.splits)
  from Cons.prems(1) have "k \<noteq> ''organization''" "''organization'' \<notin> set ks" by auto
  with Cons.IH [OF _ r] put_field_other_paths [OF s] show ?case by simp
qed

lemma copy_fields_completedAt:
  "''completedAt'' \<notin> set ks \<Longrightarrow> copy_fields L b ks t = Some t' \<Longrightarrow>
     completedAt t' = completedAt t"
proof (induction ks arbitrary: t)
  case Nil
  then show ?case by simp
next
  case (Cons k ks)
  from Cons.prems(2) obtain t1 where s: "put_field L b t k = Some t1"
    and r: "copy_fields L b ks t1 = Some t'" by (auto split: option.splits)
  from Cons.prems(1) have "k \<noteq> ''completedAt''" "''completedAt'' \<notin> set ks" by auto
  with Cons.IH [OF _ r] put_field_other_paths [OF s] show ?case by simp
qed

lemma put_task_tasks:
  assumes "within_task_paths b"
  shows "tasks (snd (put_task L actor idp b now d)) = tasks d \<or>
   (\<exists>t doc. t \<in> set (tasks d) \<and>
      copy_fields L (sanitize_trim ''title'' b) (keys b) t = Some doc \<and>
      tid doc = tid t \<and> createdAt doc = createdAt t \<and>
      tasks (snd (put_task L actor idp b now d)) =
        map (\<lambda>x. if tid x = tid t
                 then apply_delta t (task_pre_save now (status doc \<noteq> status t)
                                       (timestamps_pre_save now False (doc \<noteq> t) doc)) x
                 else x) (tasks d))"
proof (cases "snd (put_task L actor idp b now d) = d")
  case True
  then show ?thesis by simp
next
  case False
  with put_task_outcome [of L actor idp b now d]
  obtain organizationId i t where
    f: "find_task i organizationId (tasks d) = Some t"
    and e: "put_task L actor idp b now d = put_apply L (sanitize_trim ''title'' b) now t d"
    by (auto split: option.splits)
  have "t \<in> set (tasks d)" using find_task_SomeD [OF f] by simp
  moreover have "within_task_paths (sanitize_trim ''title'' b)" using assms by simp
  from put_apply_tasks [OF this, of L now t d]
  have "tasks (snd (put_task L actor idp b now d)) = tasks d \<or>
   (\<exists>doc. copy_fields L (sanitize_trim ''title'' b) (keys b) t = Some doc \<and> tid doc = tid t \<and>
      createdAt doc = createdAt t \<and>
      tasks (snd (put_task L actor idp b now d)) =
        map (\<lambda>x. if tid x = tid t
                 then apply_delta t (task_pre_save now (status doc \<noteq> status t)
                                       (timestamps_pre_save now False (doc \<noteq> t) doc)) x
                 else x) (tasks d))"
    by (simp add: e keys_sanitize_trim)
  ultimately show ?thesis by blast
qed

lemma update_keeps_organization:
  assumes "within_task_paths b" and "''organization'' \<notin> set (keys b)"
    and "x \<in> set (tasks (snd (put_task L actor idp b now d)))"
  shows "\<exists>y \<in> set (tasks d). tid y = tid x \<and> organization y = organization x"
proof -
  from put_task_tasks [OF assms(1), of L actor idp now d]
  consider "tasks (snd (put_task L actor idp b now d)) = tasks d"
    | t doc where "t \<in> set (tasks d)"
      "copy_fields L (sanitize_trim ''title'' b) (keys b) t = Some doc"
      "tasks (snd (put_task L actor idp b now d)) =
        map (\<lambda>x. if tid x = tid t
                 then apply_delta t (task_pre_save now (status doc \<noteq> status t)
                                       (timestamps_pre_save now False (doc \<noteq> t) doc)) x
                 else x) (tasks d)"
    by blast
  then show ?thesis
  proof cases
    case 1
    with assms(3) show ?thesis by auto
  next
    case 2
    let ?saved = "task_pre_save now (status doc \<noteq> status t)
                    (timestamps_pre_save now False (doc \<noteq> t) doc)"
    have g: "organization ?saved = organization t"
      using copy_fields_organization [OF assms(2) 2(2)] by simp
    from assms(3) 2(3) obtain y where y: "y \<in> set (tasks d)"
      "x = (if tid y = tid t then apply_delta t ?saved y else y)" by auto
    then have "tid y = tid x \<and> organization y = organization x"
      using g by (simp add: apply_delta_organization)
    with y(1) show ?thesis by auto
  qed
qed

lemma task_pre_save_ok:
  assumes "completedAt_ok t" and "completedAt t' = completedAt t"
  shows "completedAt_ok (task_pre_save now (status t' \<noteq> status t) t')"
  using assms by (auto simp: completedAt_ok_def task_pre_save_def)

lemma same_tid_same_task:
  assumes "distinct (map tid ts)" and "t \<in> set ts" and "y \<in> set ts" and "tid y = tid t"
  shows "y = t"
proof -
  from assms(1) have "inj_on tid (set ts)" by (simp add: distinct_map)
  with assms(2,3,4) show ?thesis by (auto dest: inj_onD)
qed

lemma update_keeps_completedAt_ok:
  assumes "within_task_paths b" and "''completedAt'' \<notin> set (keys b)"
    and "distinct (map tid (tasks d))" and "list_all completedAt_ok (tasks d)"
  shows "list_all completedAt_ok (tasks (snd (put_task L actor idp b now d)))"
proof -
  from put_task_tasks [OF assms(1), of L actor idp now d]
  consider "tasks (snd (put_task L actor idp b now d)) = tasks d"
    | t doc where "t \<in> set (tasks d)"
      "copy_fields L (sanitize_trim ''title'' b) (keys b) t = Some doc"
      "tid doc = tid t" "createdAt doc = createdAt t"
      "tasks (snd (put_task L actor idp b now d)) =
        map (\<lambda>x. if tid x = tid t
                 then apply_delta t (task_pre_save now (status doc \<noteq> status t)
                                       (timestamps_pre_save now False (doc \<noteq> t) doc)) x
                 else x) (tasks d)"
    by blast
  then show ?thesis
  proof cases
    case 1
    with assms(4) show ?thesis by simp
  next
    case 2
    let ?stamped = "timestamps_pre_save now False (doc \<noteq> t) doc"
    let ?saved = "task_pre_save now (status doc \<noteq> status t) ?stamped"
    from 2(1) assms(4) have "completedAt_ok t" by (simp add: list_all_iff)
    moreover have "completedAt ?stamped = completedAt t"
      using copy_fields_completedAt [OF assms(2) 2(2)] by simp
    ultimately have "completedAt_ok (task_pre_save now (status ?stamped \<noteq> status t) ?stamped)"
      by (rule task_pre_save_ok)
    then have ok: "completedAt_ok ?saved" by simp
    have self: "apply_delta t ?saved t = ?saved"
      using 2(3,4) by (intro apply_delta_self) simp_all
    have each: "completedAt_ok (if tid y = tid t then apply_delta t ?saved y else y)"
      if y: "y \<in> set (tasks d)" for y
    proof (cases "tid y = tid t")
      case True
      with assms(3) 2(1) y have "y = t" by (intro same_tid_same_task [of "tasks d"])
      with True ok self show ?thesis by simp
    next
      case False
      with y assms(4) show ?thesis by (simp add: list_all_iff)
    qed
    show ?thesis unfolding 2(5) list_all_iff
    proof
      fix z
      assume "z \<in> set (map (\<lambda>x. if tid x = tid t then apply_delta t ?saved x else x) (tasks d))"
      then obtain y where "y \<in> set (tasks d)"
        "z = (if tid y = tid t then apply_delta t ?saved y else y)" by auto
      with each [of y] show "completedAt_ok z" by simp
    qed
  qed
qed

lemma create_keeps_completedAt_ok:
  assumes "list_all completedAt_ok (tasks d)"
  shows "list_all completedAt_ok (tasks (snd (post_task L actor b now i d)))"
proof (cases "snd (post_task L actor b now i d) = d")
  case True
  with assms show ?thesis by simp
next
  case False
  with post_task_outcome [of L actor b now i d]
  obtain organizationId where e: "post_task L actor b now i d =
      post_create L (sanitize_trim ''title'' b) actor organizationId now i d"
    by (auto split: option.splits)
  have "completedAt_ok x"
    if "x \<in> set (tasks (snd (post_create L (sanitize_trim ''title'' b) actor organizationId now i d)))"
    for x
  proof -
    from that have "x \<in> set (tasks d) \<or> status x = Todo \<and> completedAt x = None"
      by (rule post_create_fields)
    with assms show ?thesis by (auto simp: completedAt_ok_def list_all_iff)
  qed
  then show ?thesis by (simp add: e list_all_iff)
qed

lemma create_hook_idle:
  "new_task L b actor organizationId now i = Some t \<Longrightarrow> task_pre_save now m t = t"
  by (auto dest!: new_task_fields simp: task_pre_save_def)

lemma sweeper_keeps_completedAt_ok:
  "list_all completedAt_ok ts \<Longrightarrow> list_all completedAt_ok (snd (taskExpirationJob now ts))"
  by (auto simp: taskExpirationJob_def list_all_iff completedAt_ok_def expiry_match_def)

text \<open>Keys outside \<open>task_paths\<close> that the embedding covers, on the sample store.\<close>

lemma update_with_comments_string_throws:
  "put_task demo_dates acme_admin id_a [(''comments'', JStr ''hello'')] 5000 demo_db =
     (Message 500 ''Server error'', demo_db)"
  by code_simp

lemma update_with_id_writes_under_that_id:
  "put_task demo_dates acme_admin id_a
     [(''_id'', JStr id_b), (''title'', JStr ''Moved'')] 5000 demo_db =
   (Json 200 (task_a\<lparr>tid := 101, title := ''Moved'', updatedAt := 5000\<rparr>),
    demo_db\<lparr>tasks := [task_a, task_b\<lparr>title := ''Moved'', updatedAt := 5000\<rparr>, task_c, task_d]\<rparr>)"
  by code_simp

lemma path_of_twelve_characters_not_found:
  "get_task acme_admin ''abcdefghijkl'' demo_db = Message 404 ''Task not found''"
  by (simp add: get_task_def tenantIsolation_def castObjectId_def isMongoId_def find_task_def
      acme_admin_def demo_db_def task_a_def task_b_def task_c_def task_d_def)

lemma invite_creates_placeholder:
  "invite demo_auth acme_admin [(''email'', JStr ''Carl@Acme.test'')] 1000 ''tok-7f3a'' 12
     (demo_db\<lparr>users := [acme_admin, acme_member]\<rparr>) =
   (Json 200 (''tok-7f3a'', 604801000),
    demo_db\<lparr>users := [acme_admin, acme_member, pending_invite]\<rparr>)"
  by code_simp

section \<open>Tenant isolation\<close>




section \<open>The organization of a task\<close>

text \<open>
  Claim C2, at a failing input. The update handler copies every key of the body onto the
  task, so an Admin of organization 1 who sends \<open>{organization: <id of organization 2>}\<close>
  moves task 100 to organization 2: the reply is 200 and the stored task belongs to
  organization 2.
\<close>

theorem update_changes_organization:
  "put_task demo_dates acme_admin id_a
     [(''organization'', JStr ''000000000000000000000002'')] 5000 demo_db =
   (Json 200 (task_a\<lparr>organization := 2, updatedAt := 5000\<rparr>),
    demo_db\<lparr>tasks := [task_a\<lparr>organization := 2, updatedAt := 5000\<rparr>, task_b, task_c, task_d]\<rparr>)"
  by code_simp

section \<open>completedAt\<close>

text \<open>
  Claim C3, at two failing inputs. The update handler copies the key \<open>completedAt\<close> of a
  body onto the task, and the model's hook recomputes it only when the status changes:
  an Admin who sends \<open>{completedAt: null}\<close> for the Completed task 101 leaves it Completed
  with no \<open>completedAt\<close>, and one who sends a date for the Todo task 100 leaves it Todo
  with a \<open>completedAt\<close>.
\<close>

theorem update_breaks_completedAt:
  "put_task demo_dates acme_admin id_b [(''completedAt'', JNull)] 5000 demo_db =
     (Json 200 (task_b\<lparr>completedAt := None, updatedAt := 5000\<rparr>),
      demo_db\<lparr>tasks := [task_a, task_b\<lparr>completedAt := None, updatedAt := 5000\<rparr>, task_c,
                         task_d]\<rparr>) \<and>
   status (task_b\<lparr>completedAt := None, updatedAt := 5000\<rparr>) = Completed \<and>
   put_task demo_dates acme_admin id_a
       [(''completedAt'', JStr ''2030-01-01T00:00:00.000Z'')] 5000 demo_db =
     (Json 200 (task_a\<lparr>completedAt := Some 1893456000000, updatedAt := 5000\<rparr>),
      demo_db\<lparr>tasks := [task_a\<lparr>completedAt := Some 1893456000000, updatedAt := 5000\<rparr>, task_b,
                         task_c, task_d]\<rparr>) \<and>
   status (task_a\<lparr>completedAt := Some 1893456000000, updatedAt := 5000\<rparr>) = Todo"
  by code_simp

section \<open>Updates by a Member\<close>

text \<open>
  Claim C4, as amended. For an update request of a Member on a task of their
  organization, in a store whose task ids are distinct: a body that fails the route's
  validators is answered 400 with the validation errors, whoever the assignee is, and
  the store is unchanged. For a body that passes them: when the Member is not the
  assignee the request is denied with 403 and the store is unchanged; when the Member is
  the assignee and the body has a key other than \<open>status\<close> the request is denied with 403
  and the store is unchanged, so nothing of the body is applied; when the body has no
  key but \<open>status\<close> the update is applied: the reply is 200 with the saved task, the store
  holds the saved task in the place of the loaded one and every other task as before,
  and the saved task is the loaded one when the body is empty or names the status the
  task has, and otherwise the loaded one with the status of the body (never Expired),
  with \<open>completedAt\<close> kept or set to the clock for Completed and cleared for the others,
  and with \<open>updatedAt\<close> set to the clock.
\<close>

theorem member_update_policy:
  assumes "role actor = Member" and "userOrganization actor = Some organizationId"
    and "castObjectId idp = Some i" and "find_task i organizationId (tasks d) = Some t"
    and "distinct (map tid (tasks d))"
  shows "(validate_put L b \<noteq> [] \<longrightarrow>
            put_task L actor idp b now d = (Errors 400 (validate_put L b), d)) \<and>
         (validate_put L b = [] \<and> assignedTo t \<noteq> Some (uid actor) \<longrightarrow>
            put_task L actor idp b now d = (Message 403 ''Access denied'', d)) \<and>
         (validate_put L b = [] \<and> assignedTo t = Some (uid actor) \<and>
          (\<exists>k \<in> set (keys b). k \<noteq> ''status'') \<longrightarrow>
            put_task L actor idp b now d =
              (Message 403 ''Members can only update task status'', d)) \<and>
         (validate_put L b = [] \<and> assignedTo t = Some (uid actor) \<and>
          list_all (\<lambda>k. k = ''status'') (keys b) \<longrightarrow>
            (\<exists>saved. put_task L actor idp b now d =
                (Json 200 saved, d\<lparr>tasks := map (\<lambda>x. if x = t then saved else x) (tasks d)\<rparr>) \<and>
              (case body_get b ''status'' of
                 None \<Rightarrow> saved = t
               | Some v \<Rightarrow>
                   (\<exists>st. status_name st = str_of v \<and> st \<noteq> Expired \<and>
                      saved =
                        (if st = status t then t
                         else t\<lparr>status := st,
                                completedAt :=
                                  (if st = Completed
                                   then (case completedAt t of None \<Rightarrow> Some now | Some c \<Rightarrow> Some c)
                                   else None),
                                updatedAt := now\<rparr>)))))"
proof (intro conjI impI)
  assume "validate_put L b \<noteq> []"
  with assms show "put_task L actor idp b now d = (Errors 400 (validate_put L b), d)"
    by (simp add: put_task_def tenantIsolation_def)
next
  assume "validate_put L b = [] \<and> assignedTo t \<noteq> Some (uid actor)"
  with assms show "put_task L actor idp b now d = (Message 403 ''Access denied'', d)"
    by (simp add: put_task_def tenantIsolation_def)
next
  assume a: "validate_put L b = [] \<and> assignedTo t = Some (uid actor) \<and>
    (\<exists>k \<in> set (keys b). k \<noteq> ''status'')"
  then have "list_ex (\<lambda>field. field \<notin> set [''status'']) (keys (sanitize_trim ''title'' b))"
    by (auto simp: keys_sanitize_trim list_ex_iff)
  with a assms
  show "put_task L actor idp b now d = (Message 403 ''Members can only update task status'', d)"
    by (simp add: put_task_def tenantIsolation_def Let_def)
next
  assume a: "validate_put L b = [] \<and> assignedTo t = Some (uid actor) \<and>
    list_all (\<lambda>k. k = ''status'') (keys b)"
  let ?b = "sanitize_trim ''title'' b"
  have all: "list_all (\<lambda>k. k = ''status'') (keys ?b)" using a by (simp add: keys_sanitize_trim)
  then have noex: "\<not> list_ex (\<lambda>field. field \<notin> set [''status'']) (keys ?b)"
    by (auto simp: list_all_iff list_ex_iff)
  have "''assignedTo'' \<notin> set (keys ?b)" using all by (auto simp: list_all_iff)
  then have noasg: "\<not> truthy (body_get ?b ''assignedTo'')" by (simp add: body_get_absent)
  have "''isNew'' \<notin> set (keys ?b)" using all by (auto simp: list_all_iff)
  then have nonew: "\<not> truthy (body_get ?b ''isNew'')" by (simp add: body_get_absent)
  have put: "put_task L actor idp b now d = put_apply L ?b now t d"
    using assms a noex noasg by (simp add: put_task_def tenantIsolation_def Let_def)
  have same: "body_get ?b ''status'' = body_get b ''status''" by (simp add: body_get_sanitize_trim)
  have tin: "t \<in> set (tasks d)" using find_task_SomeD [OF assms(4)] by simp
  then have ex: "list_ex (\<lambda>x. tid x = tid t) (tasks d)" by (auto simp: list_ex_iff)
  have store: "map (\<lambda>x. if tid x = tid t then apply_delta t saved x else x) (tasks d) =
      map (\<lambda>x. if x = t then saved else x) (tasks d)"
    if "tid saved = tid t" "createdAt saved = createdAt t" for saved
  proof (rule map_cong [OF refl])
    fix x assume x: "x \<in> set (tasks d)"
    show "(if tid x = tid t then apply_delta t saved x else x) = (if x = t then saved else x)"
    proof (cases "tid x = tid t")
      case True
      with assms(5) tin x have "x = t" by (intro same_tid_same_task [of "tasks d"])
      with that show ?thesis by (simp add: apply_delta_self)
    next
      case False
      then show ?thesis by auto
    qed
  qed
  have same_store: "map (\<lambda>x. if x = t then t else x) (tasks d) = tasks d"
    by (rule map_idI) simp
  show "\<exists>saved. put_task L actor idp b now d =
                (Json 200 saved, d\<lparr>tasks := map (\<lambda>x. if x = t then saved else x) (tasks d)\<rparr>) \<and>
              (case body_get b ''status'' of
                 None \<Rightarrow> saved = t
               | Some v \<Rightarrow>
                   (\<exists>st. status_name st = str_of v \<and> st \<noteq> Expired \<and>
                      saved =
                        (if st = status t then t
                         else t\<lparr>status := st,
                                completedAt :=
                                  (if st = Completed
                                   then (case completedAt t of None \<Rightarrow> Some now | Some c \<Rightarrow> Some c)
                                   else None),
                                updatedAt := now\<rparr>)))"
  proof (cases "body_get b ''status''")
    case None
    then have "''status'' \<notin> set (keys b)" using body_get_key [of "''status''" b] by auto
    with a have "keys b = []" by (cases "keys b") (auto)
    then have "copy_fields L ?b (keys ?b) t = Some t" by (simp add: keys_sanitize_trim)
    then have "put_apply L ?b now t d = (Json 200 t, d\<lparr>tasks := map (\<lambda>x. if x = t then t else x) (tasks d)\<rparr>)"
      using nonew ex store [of t]
      by (simp add: put_apply_def save_task_def task_pre_save_def timestamps_pre_save_def)
    with put None show ?thesis by simp
  next
    case (Some v)
    from a have "optional b ''status'' (isIn [''Todo'', ''In Progress'', ''Completed'']) = []"
      by (simp add: validate_put_def)
    with Some have "str_of v \<in> set [''Todo'', ''In Progress'', ''Completed'']"
      by (simp add: optional_def isIn_def split: if_splits)
    then obtain st where st: "status_of (str_of v) = Some st" "status_name st = str_of v"
      "st \<noteq> Expired"
      by (auto simp: status_of_def)
    then have "status_of (str_opt (body_get ?b ''status'')) = Some st"
      using Some same by (simp add: str_opt_def)
    from copy_status_only [OF all this]
    have "copy_fields L ?b (keys ?b) t = Some (if keys ?b = [] then t else t\<lparr>status := st\<rparr>)" .
    moreover have "keys ?b \<noteq> []" using Some body_get_absent [of "''status''" b]
      by (auto simp: keys_sanitize_trim)
    ultimately have copy: "copy_fields L ?b (keys ?b) t = Some (t\<lparr>status := st\<rparr>)" by simp
    define saved where
      "saved = (if st = status t then t
                else t\<lparr>status := st,
                       completedAt :=
                         (if st = Completed
                          then (case completedAt t of None \<Rightarrow> Some now | Some c \<Rightarrow> Some c)
                          else None),
                       updatedAt := now\<rparr>)"
    have hook: "task_pre_save now (status (t\<lparr>status := st\<rparr>) \<noteq> status t)
        (timestamps_pre_save now False (t\<lparr>status := st\<rparr> \<noteq> t) (t\<lparr>status := st\<rparr>)) = saved"
    proof (cases "st = status t")
      case True
      then have "t\<lparr>status := st\<rparr> = t" by simp
      with True show ?thesis by (simp add: saved_def task_pre_save_def timestamps_pre_save_def)
    next
      case False
      then have "t\<lparr>status := st\<rparr> \<noteq> t" by (auto dest: arg_cong [where f = status])
      with False show ?thesis
        by (cases t)
           (auto simp: saved_def task_pre_save_def timestamps_pre_save_def split: option.splits)
    qed
    have ids: "tid saved = tid t" "createdAt saved = createdAt t" by (simp_all add: saved_def)
    have nn: "truthy (body_get ?b ''isNew'') = False" using nonew by simp
    have sv: "save_task t saved (tasks d) =
        Some (map (\<lambda>x. if x = t then saved else x) (tasks d))"
      using ex store [OF ids] ids(1) by (simp add: save_task_def)
    have "put_apply L ?b now t d =
        (Json 200 saved, d\<lparr>tasks := map (\<lambda>x. if x = t then saved else x) (tasks d)\<rparr>)"
      unfolding put_apply_def copy Let_def option.case nn hook if_False sv ..
    with put have "put_task L actor idp b now d =
        (Json 200 saved, d\<lparr>tasks := map (\<lambda>x. if x = t then saved else x) (tasks d)\<rparr>)"
      by simp
    moreover have "\<exists>st. status_name st = str_of v \<and> st \<noteq> Expired \<and>
        saved = (if st = status t then t
                 else t\<lparr>status := st,
                        completedAt :=
                          (if st = Completed
                           then (case completedAt t of None \<Rightarrow> Some now | Some c \<Rightarrow> Some c)
                           else None),
                        updatedAt := now\<rparr>)"
      using st(2,3) saved_def by blast
    ultimately show ?thesis unfolding Some option.case by blast
  qed
qed

theorem member_update_policy_witness:
  "role acme_member = Member \<and> userOrganization acme_member = Some 1 \<and>
   castObjectId id_a = Some 100 \<and> castObjectId id_b = Some 101 \<and>
   find_task 100 1 (tasks demo_db) = Some task_a \<and>
   find_task 101 1 (tasks demo_db) = Some task_b \<and>
   distinct (map tid (tasks demo_db)) \<and>
   validate_put demo_dates [(''status'', JStr ''Completed''), (''title'', JStr ''Mine'')] = [] \<and>
   validate_put demo_dates [(''status'', JStr ''Completed'')] = [] \<and>
   validate_put demo_dates [(''status'', JStr ''Expired'')] = [''status''] \<and>
   put_task demo_dates acme_member id_a [(''status'', JStr ''Expired'')] 5000 demo_db =
     (Errors 400 [''status''], demo_db) \<and>
   put_task demo_dates acme_member id_b
       [(''status'', JStr ''Completed''), (''title'', JStr ''Mine'')] 5000 demo_db =
     (Message 403 ''Access denied'', demo_db) \<and>
   put_task demo_dates acme_member id_a
       [(''status'', JStr ''Completed''), (''title'', JStr ''Mine'')] 5000 demo_db =
     (Message 403 ''Members can only update task status'', demo_db) \<and>
   put_task demo_dates acme_member id_a [(''status'', JStr ''Completed'')] 5000 demo_db =
     (Json 200 (task_a\<lparr>status := Completed, completedAt := Some 5000, updatedAt := 5000\<rparr>),
      demo_db\<lparr>tasks := [task_a\<lparr>status := Completed, completedAt := Some 5000, updatedAt := 5000\<rparr>,
                         task_b, task_c, task_d]\<rparr>)"
proof -
  let ?b = "[(''status'', JStr ''Completed''), (''title'', JStr ''Mine'')]"
  let ?s = "[(''status'', JStr ''Completed'')]"
  let ?e = "[(''status'', JStr ''Expired'')]"
  have h1: "role acme_member = Member" by (simp add: acme_member_def)
  have h2: "userOrganization acme_member = Some 1" by (simp add: acme_member_def)
  have fa: "find_task 100 1 (tasks demo_db) = Some task_a"
    by (simp add: find_task_def demo_db_def task_a_def)
  have fb: "find_task 101 1 (tasks demo_db) = Some task_b"
    by (simp add: find_task_def demo_db_def task_a_def task_b_def)
  have dist: "distinct (map tid (tasks demo_db))" by (simp add: demo_defs)
  have v: "validate_put demo_dates ?b = []"
    by (simp add: validate_put_def optional_def body_get_def isIn_def isLength_def trim_def
        is_space_def)
  have w: "validate_put demo_dates ?s = []"
    by (simp add: validate_put_def optional_def body_get_def isIn_def)
  have x: "validate_put demo_dates ?e = [''status'']"
    by (simp add: validate_put_def optional_def body_get_def isIn_def)
  have na: "assignedTo task_b \<noteq> Some (uid acme_member)" by (simp add: task_b_def)
  have ya: "assignedTo task_a = Some (uid acme_member)"
    by (simp add: task_a_def acme_member_def)
  have k: "\<exists>k \<in> set (keys ?b). k \<noteq> ''status''" by (simp add: keys_def)
  have only: "list_all (\<lambda>k. k = ''status'') (keys ?s)" by (simp add: keys_def)
  have ta: "status task_a = Todo" "completedAt task_a = None" by (simp_all add: task_a_def)
  from member_update_policy [OF h1 h2 cast_id_a fa dist, of demo_dates ?s 5000] w ya only
  obtain saved st where s: "put_task demo_dates acme_member id_a ?s 5000 demo_db =
       (Json 200 saved, demo_db\<lparr>tasks := map (\<lambda>x. if x = task_a then saved else x) (tasks demo_db)\<rparr>)"
    "status_name st = ''Completed''"
    "saved = (if st = status task_a then task_a
              else task_a\<lparr>status := st,
                     completedAt :=
                       (if st = Completed
                        then (case completedAt task_a of None \<Rightarrow> Some 5000 | Some c \<Rightarrow> Some c)
                        else None),
                     updatedAt := 5000\<rparr>)"
    by (auto simp: body_get_def)
  from s(2) have "st = Completed" by (cases st) simp_all
  with s(3) ta have sv: "saved = task_a\<lparr>status := Completed, completedAt := Some 5000, updatedAt := 5000\<rparr>"
    by simp
  have "map (\<lambda>x. if x = task_a then saved else x) (tasks demo_db) = [saved, task_b, task_c, task_d]"
    by (simp add: demo_db_def task_a_def task_b_def task_c_def task_d_def)
  with s(1) sv have fourth:
    "put_task demo_dates acme_member id_a ?s 5000 demo_db =
     (Json 200 (task_a\<lparr>status := Completed, completedAt := Some 5000, updatedAt := 5000\<rparr>),
      demo_db\<lparr>tasks := [task_a\<lparr>status := Completed, completedAt := Some 5000, updatedAt := 5000\<rparr>,
                         task_b, task_c, task_d]\<rparr>)"
    by simp
  from member_update_policy [OF h1 h2 cast_id_a fa dist, of demo_dates ?e 5000] x
  have first: "put_task demo_dates acme_member id_a ?e 5000 demo_db = (Errors 400 [''status''], demo_db)"
    by simp
  from member_update_policy [OF h1 h2 cast_id_b fb dist, of demo_dates ?b 5000] v na
    member_update_policy [OF h1 h2 cast_id_a fa dist, of demo_dates ?b 5000] v ya k
  have "put_task demo_dates acme_member id_b ?b 5000 demo_db = (Message 403 ''Access denied'', demo_db)"
    and "put_task demo_dates acme_member id_a ?b 5000 demo_db =
      (Message 403 ''Members can only update task status'', demo_db)"
    by simp_all
  with first fourth h1 h2 cast_id_a cast_id_b fa fb dist v w x show ?thesis by simp
qed

text \<open>
  The claim as stated fails for a body the validators reject, since they run before the
  permission check: a Member who is not the assignee of task 101 and sends
  \<open>{status: "Expired"}\<close> is answered 400 with the validation error, not 403, and so is the
  assignee of task 100 who sends a priority outside the enumeration next to the status.
\<close>

theorem member_invalid_body_not_forbidden:
  "role acme_member = Member \<and> userOrganization acme_member = Some 1 \<and>
   find_task 101 1 (tasks demo_db) = Some task_b \<and> organization task_b = 1 \<and>
   assignedTo task_b \<noteq> Some (uid acme_member) \<and>
   put_task demo_dates acme_member id_b [(''status'', JStr ''Expired'')] 5000 demo_db =
     (Errors 400 [''status''], demo_db) \<and>
   code (fst (put_task demo_dates acme_member id_b [(''status'', JStr ''Expired'')] 5000 demo_db))
     \<noteq> 403 \<and>
   find_task 100 1 (tasks demo_db) = Some task_a \<and>
   assignedTo task_a = Some (uid acme_member) \<and>
   put_task demo_dates acme_member id_a
       [(''status'', JStr ''Completed''), (''priority'', JStr ''Urgent'')] 5000 demo_db =
     (Errors 400 [''priority''], demo_db)"
  by code_simp

section \<open>The list seen by a Member\<close>

text \<open>
  Claim C5. Whatever the filters and the pagination of a list request of a Member, every
  task of the returned page has the Member as its assignee or as its creator.
\<close>

theorem member_list_scope:
  assumes "role actor = Member" and "get_tasks actor q d = Json c pg"
  shows "list_all (\<lambda>t. assignedTo t = Some (uid actor) \<or> createdBy t = uid actor) (page_tasks pg)"
proof -
  from assms(2) obtain organizationId where
    pg: "page_tasks pg = take (nat (or_default (q_limit q) 10))
           (drop (nat ((or_default (q_page q) 1 - 1) * or_default (q_limit q) 10))
             (sort_key (\<lambda>t. - createdAt t) (filter (list_filter actor organizationId q) (tasks d))))"
    by (auto simp: get_tasks_def tenantIsolation_def Let_def split: option.splits if_splits)
  have "set (page_tasks pg) \<subseteq> set (filter (list_filter actor organizationId q) (tasks d))"
    unfolding pg using set_take_subset set_drop_subset by (metis order_trans set_sort)
  with assms(1) show ?thesis
    by (auto simp: list_all_iff list_filter_def member_scope_def)
qed

theorem member_list_scope_witness:
  "role acme_member = Member \<and>
   get_tasks acme_member demo_query demo_db =
     Json 200 \<lparr>page_tasks = [task_a], page = 1, limit = 5, total = 1, pages = 1\<rparr> \<and>
   list_all (\<lambda>t. assignedTo t = Some (uid acme_member) \<or> createdBy t = uid acme_member) [task_a]"
proof -
  have h1: "role acme_member = Member" by (simp add: acme_member_def)
  have h2: "get_tasks acme_member demo_query demo_db =
     Json 200 \<lparr>page_tasks = [task_a], page = 1, limit = 5, total = 1, pages = 1\<rparr>"
    by (simp add: get_tasks_def tenantIsolation_def validate_list_def q_optional_def isIn_def
        or_default_def list_filter_def q_cond_def member_scope_def ceil_div_def Let_def
        demo_query_def acme_member_def demo_db_def task_a_def task_b_def task_c_def task_d_def)
  from member_list_scope [OF h1 h2] show ?thesis using h1 h2 by simp
qed

section \<open>The expiration job\<close>

text \<open>
  Claim C7, as amended. One tick of the job turns each task of the collection, of
  whatever organization, whose due date is set and earlier than now and whose status is
  neither Completed nor Expired into the same task with status Expired and with
  \<open>updatedAt\<close> set to the clock, and leaves every other task as it is; the count it
  reports is the number of tasks it changed; no \<open>completedAt\<close> changes. A second tick at
  a time at which no further task has become overdue changes nothing and reports zero.
\<close>

theorem sweeper_tick:
  "list_all2 (\<lambda>t t'. t' = (if (\<exists>due. dueDate t = Some due \<and> due < now) \<and>
                                status t \<noteq> Completed \<and> status t \<noteq> Expired
                             then t\<lparr>status := Expired, updatedAt := now\<rparr> else t))
      ts (snd (taskExpirationJob now ts)) \<and>
   fst (taskExpirationJob now ts) =
     count (\<lambda>(t, t'). t' \<noteq> t) (zip ts (snd (taskExpirationJob now ts))) \<and>
   map completedAt (snd (taskExpirationJob now ts)) = map completedAt ts \<and>
   (list_all (\<lambda>t. case dueDate t of None \<Rightarrow> True | Some due \<Rightarrow> due < now' \<longrightarrow> due < now) ts \<longrightarrow>
      taskExpirationJob now' (snd (taskExpirationJob now ts)) = (0, snd (taskExpirationJob now ts)))"
proof (intro conjI impI)
  show "list_all2 (\<lambda>t t'. t' = (if (\<exists>due. dueDate t = Some due \<and> due < now) \<and>
                                status t \<noteq> Completed \<and> status t \<noteq> Expired
                             then t\<lparr>status := Expired, updatedAt := now\<rparr> else t))
      ts (snd (taskExpirationJob now ts))"
    by (simp add: taskExpirationJob_def list_all2_map2 expiry_match_iff list_all2_same)
  show "fst (taskExpirationJob now ts) =
     count (\<lambda>(t, t'). t' \<noteq> t) (zip ts (snd (taskExpirationJob now ts)))"
    by (simp add: taskExpirationJob_def count_changed)
  show "map completedAt (snd (taskExpirationJob now ts)) = map completedAt ts"
    by (simp add: taskExpirationJob_def)
next
  assume old: "list_all (\<lambda>t. case dueDate t of None \<Rightarrow> True | Some due \<Rightarrow> due < now' \<longrightarrow> due < now) ts"
  let ?ts' = "snd (taskExpirationJob now ts)"
  have none: "\<not> expiry_match now' x" if "x \<in> set ?ts'" for x
  proof -
    from that obtain t where t: "t \<in> set ts"
      and x: "x = (if expiry_match now t then t\<lparr>status := Expired, updatedAt := now\<rparr> else t)"
      by (auto simp: taskExpirationJob_def)
    show ?thesis
    proof (cases "expiry_match now t")
      case True
      with x show ?thesis by (simp add: expiry_match_after)
    next
      case False
      from old t have "case dueDate t of None \<Rightarrow> True | Some due \<Rightarrow> due < now' \<longrightarrow> due < now"
        by (simp add: list_all_iff)
      with False x show ?thesis by (auto simp: expiry_match_def split: option.splits)
    qed
  qed
  then have f: "filter (expiry_match now') ?ts' = []" by (simp add: filter_empty_conv)
  have "map (\<lambda>t. if expiry_match now' t then t\<lparr>status := Expired, updatedAt := now'\<rparr> else t) ?ts'
      = ?ts'"
    using none by (simp add: map_idI)
  with f show "taskExpirationJob now' ?ts' = (0, ?ts')"
    by (simp add: taskExpirationJob_def [of now' ?ts'])
qed

theorem sweeper_tick_witness:
  "list_all (\<lambda>t. case dueDate t of None \<Rightarrow> True | Some due \<Rightarrow> due < 6000 \<longrightarrow> due < 5000)
     (tasks demo_db) \<and>
   taskExpirationJob 5000 (tasks demo_db) =
     (1, [task_a\<lparr>status := Expired, updatedAt := 5000\<rparr>, task_b, task_c, task_d]) \<and>
   taskExpirationJob 6000 [task_a\<lparr>status := Expired, updatedAt := 5000\<rparr>, task_b, task_c, task_d] =
     (0, [task_a\<lparr>status := Expired, updatedAt := 5000\<rparr>, task_b, task_c, task_d])"
proof -
  have h: "list_all (\<lambda>t. case dueDate t of None \<Rightarrow> True | Some due \<Rightarrow> due < 6000 \<longrightarrow> due < 5000)
     (tasks demo_db)"
    by (simp add: demo_db_def task_a_def task_b_def task_c_def task_d_def)
  have e: "taskExpirationJob 5000 (tasks demo_db) =
     (1, [task_a\<lparr>status := Expired, updatedAt := 5000\<rparr>, task_b, task_c, task_d])"
    by (simp add: taskExpirationJob_def expiry_match_def demo_db_def task_a_def task_b_def
        task_c_def task_d_def)
  from sweeper_tick [of 5000 "tasks demo_db" 6000] h e show ?thesis by simp
qed

text \<open>
  The claim as stated fails in ``changing no other field'': the schema of the task has
  \<open>timestamps: true\<close>, so the bulk update also writes \<open>updatedAt\<close>. The tick at 5000
  expires task 100 and moves its \<open>updatedAt\<close> from 1000 to 5000; the task after the tick is
  not the task before it with the status Expired alone.
\<close>

theorem sweeper_writes_updatedAt:
  "expiry_match 5000 task_a \<and> updatedAt task_a = 1000 \<and>
   map updatedAt (snd (taskExpirationJob 5000 (tasks demo_db))) = [5000, 1500, 1200, 2000] \<and>
   map updatedAt (tasks demo_db) = [1000, 1500, 1200, 2000] \<and>
   hd (snd (taskExpirationJob 5000 (tasks demo_db))) \<noteq> task_a\<lparr>status := Expired\<rparr>"
  by code_simp

section \<open>Expired comes from the job only\<close>

text \<open>
  Claim C8, at a failing input. The update handler copies every key of the body onto the
  loaded document, also \<open>isNew\<close> and \<open>_id\<close>, which no validator lists. With \<open>isNew\<close> set,
  \<open>save()\<close> inserts the document instead of updating it; with a fresh \<open>_id\<close> next to it the
  insert succeeds. An Admin of organization 2 who sends
  \<open>{isNew: "1", _id: <fresh id 202>}\<close> for the Expired task 201 gets the reply 200, and the
  store then holds a second Expired task, under the id 202, which no tick of the
  expiration job has set to Expired: before the request the store has no task of that id.
\<close>

theorem update_inserts_expired_copy:
  "validate_put demo_dates [(''isNew'', JStr ''1''), (''_id'', JStr ''0000000000000000000000ca'')]
     = [] \<and>
   code (fst (put_task demo_dates globex_admin id_d
     [(''isNew'', JStr ''1''), (''_id'', JStr ''0000000000000000000000ca'')] 5000 demo_db)) = 200 \<and>
   map tid (tasks demo_db) = [100, 101, 200, 201] \<and>
   map status (tasks demo_db) = [Todo, Completed, InProgress, Expired] \<and>
   map tid (tasks (snd (put_task demo_dates globex_admin id_d
     [(''isNew'', JStr ''1''), (''_id'', JStr ''0000000000000000000000ca'')] 5000 demo_db))) =
     [100, 101, 200, 201, 202] \<and>
   map status (tasks (snd (put_task demo_dates globex_admin id_d
     [(''isNew'', JStr ''1''), (''_id'', JStr ''0000000000000000000000ca'')] 5000 demo_db))) =
     [Todo, Completed, InProgress, Expired, Expired]"
  by code_simp

text \<open>
  For update bodies whose keys are in \<open>task_paths\<close> the property holds: along every
  sequence of create, update and delete requests, by any users, a task that is Expired
  at the end was already Expired, under the same id, at the start. The validators of
  the update keep Expired out of the \<open>status\<close> key, and create takes no status from the
  body.
\<close>

lemma request_path_expired:
  "request_path L d d' \<Longrightarrow>
     (\<forall>x \<in> set (tasks d'). status x = Expired \<longrightarrow>
        (\<exists>y \<in> set (tasks d). tid y = tid x \<and> status y = Expired))"
proof (induction rule: request_path.induct)
  case (path_refl d)
  show ?case by auto
next
  case (path_step d d' d'')
  show ?case
  proof (intro ballI impI)
    fix x assume "x \<in> set (tasks d'')" "status x = Expired"
    with path_step.hyps(2) obtain y where "y \<in> set (tasks d')" "tid y = tid x" "status y = Expired"
      by (blast dest: request_step_expired)
    with path_step.IH show "\<exists>y \<in> set (tasks d). tid y = tid x \<and> status y = Expired"
      by force
  qed
qed

lemma member_status_update_keeps_expired:
  "request_path demo_dates demo_db
     (snd (put_task demo_dates acme_member id_a [(''status'', JStr ''Completed'')] 5000 demo_db)) \<and>
   map status (tasks (snd (put_task demo_dates acme_member id_a
       [(''status'', JStr ''Completed'')] 5000 demo_db))) = [Completed, Completed, InProgress, Expired]"
proof -
  have "within_task_paths [(''status'', JStr ''Completed'')]"
    by (simp add: within_task_paths_def task_paths_def keys_def)
  then have "request_path demo_dates demo_db
     (snd (put_task demo_dates acme_member id_a [(''status'', JStr ''Completed'')] 5000 demo_db))"
    by (intro path_step [OF path_refl] update)
  moreover have "map status (tasks (snd (put_task demo_dates acme_member id_a
       [(''status'', JStr ''Completed'')] 5000 demo_db))) = [Completed, Completed, InProgress, Expired]"
    by code_simp
  ultimately show ?thesis by simp
qed

section \<open>Unique slugs\<close>

text \<open>
  Claim C6. In a store whose organizations have distinct slugs (and ids), every
  registration and every settings update leaves the slugs distinct. The hook that runs
  when the name was modified sets the slug to the first free one of the base slug and
  its suffixed forms \<open>-1\<close>, \<open>-2\<close>, ..., checked against all other organizations: every
  earlier candidate is taken by another organization and the chosen one by none; when
  only the base slug is taken the result is the base slug with \<open>-1\<close>. The insert of a
  new organization with a fresh id is refused when the document fails the checks of the
  schema and otherwise stores it with the slug of the hook, so the unique index never
  refuses it. A settings update that changes the name stores the organization with the
  slug recomputed from the new name.
\<close>

theorem slug_unique:
  "(distinct (map slug (orgs d)) \<and> distinct (map orgId (orgs d)) \<longrightarrow>
      distinct (map slug (orgs (snd (register A b i j d)))) \<and>
      distinct (map orgId (orgs (snd (register A b i j d)))) \<and>
      distinct (map slug (orgs (snd (put_settings actor b' d)))) \<and>
      distinct (map orgId (orgs (snd (put_settings actor b' d))))) \<and>
   (\<exists>k. slug (organization_pre_save os True this) = slug_candidate (baseSlug (orgName this)) k \<and>
        \<not> slug_taken os (orgId this) (slug_candidate (baseSlug (orgName this)) k) \<and>
        (\<forall>n<k. slug_taken os (orgId this) (slug_candidate (baseSlug (orgName this)) n))) \<and>
   (slug_taken os (orgId this) (baseSlug (orgName this)) \<and>
    \<not> slug_taken os (orgId this) (baseSlug (orgName this) @ ''-1'') \<longrightarrow>
      slug (organization_pre_save os True this) = baseSlug (orgName this) @ ''-1'') \<and>
   (orgId this \<notin> orgId ` set os \<longrightarrow>
      organization_insert this os =
        (if organization_validate this then Some (os @ [organization_pre_save os True this])
         else None)) \<and>
   (\<forall>organizationId current c g d'.
      userOrganization actor = Some organizationId \<and>
      find (\<lambda>x. orgId x = organizationId) (orgs d) = Some current \<and>
      put_settings actor b' d = (Json c g, d') \<and> orgName g \<noteq> orgName current \<longrightarrow>
        slug g = slug (organization_pre_save (orgs d) True g) \<and>
        orgs d' = map (\<lambda>x. if orgId x = organizationId then g else x) (orgs d))"
proof (intro conjI impI allI)
  assume inv: "distinct (map slug (orgs d)) \<and> distinct (map orgId (orgs d))"
  show "distinct (map slug (orgs (snd (register A b i j d))))"
    using register_orgs [of A b i j d] inv by (auto dest: insert_distinct)
  show "distinct (map orgId (orgs (snd (register A b i j d))))"
    using register_orgs [of A b i j d] inv by (auto dest: insert_ids)
  show "distinct (map slug (orgs (snd (put_settings actor b' d))))"
    using put_settings_orgs [of actor b' d] inv by (auto dest: update_distinct)
  show "distinct (map orgId (orgs (snd (put_settings actor b' d))))"
    using put_settings_orgs [of actor b' d] inv by (auto dest: update_ids)
next
  show "\<exists>k. slug (organization_pre_save os True this) = slug_candidate (baseSlug (orgName this)) k \<and>
        \<not> slug_taken os (orgId this) (slug_candidate (baseSlug (orgName this)) k) \<and>
        (\<forall>n<k. slug_taken os (orgId this) (slug_candidate (baseSlug (orgName this)) n))"
    by (rule pre_save_slug)
next
  assume a: "slug_taken os (orgId this) (baseSlug (orgName this)) \<and>
    \<not> slug_taken os (orgId this) (baseSlug (orgName this) @ ''-1'')"
  from pre_save_slug [of os this] obtain k where
    k: "slug (organization_pre_save os True this) = slug_candidate (baseSlug (orgName this)) k"
      "\<not> slug_taken os (orgId this) (slug_candidate (baseSlug (orgName this)) k)"
      "\<forall>n<k. slug_taken os (orgId this) (slug_candidate (baseSlug (orgName this)) n)"
    by blast
  have "decimal 1 = ''1''" by code_simp
  then have one: "slug_candidate (baseSlug (orgName this)) 1 = baseSlug (orgName this) @ ''-1''"
    by (simp add: slug_candidate_def)
  have "k \<noteq> 0"
  proof
    assume "k = 0"
    with k(2) a show False by (simp add: slug_candidate_def)
  qed
  moreover have "\<not> 1 < k" using a k(3) one by auto
  ultimately have "k = 1" by simp
  with k(1) one show "slug (organization_pre_save os True this) = baseSlug (orgName this) @ ''-1''"
    by simp
next
  assume fresh: "orgId this \<notin> orgId ` set os"
  show "organization_insert this os =
        (if organization_validate this then Some (os @ [organization_pre_save os True this])
         else None)"
  proof (cases "organization_validate this")
    case True
    with fresh show ?thesis by (simp add: insert_succeeds)
  next
    case False
    then show ?thesis by (simp add: organization_insert_def)
  qed
next
  fix organizationId current c g d'
  assume a: "userOrganization actor = Some organizationId \<and>
      find (\<lambda>x. orgId x = organizationId) (orgs d) = Some current \<and>
      put_settings actor b' d = (Json c g, d') \<and> orgName g \<noteq> orgName current"
  then obtain g2 where g2: "orgId g2 = orgId current"
    "g = organization_pre_save (orgs d) (orgName g2 \<noteq> orgName current) g2"
    "organization_save (orgName g2 \<noteq> orgName current) g2 (orgs d) = Some (orgs d')"
    using put_settings_success [of actor b' d c g d' organizationId current] by blast
  from a g2(2) have m: "orgName g2 \<noteq> orgName current" by simp
  with g2(2) have g: "g = organization_pre_save (orgs d) True g2" by simp
  then show "slug g = slug (organization_pre_save (orgs d) True g)"
    by (simp add: organization_pre_save_def)
  from a have cur: "orgId current = organizationId" by (auto simp: find_Some_iff)
  from g2(3) m g have "orgs d' = map (\<lambda>x. if orgId x = orgId g then g else x) (orgs d)"
    by (auto simp: organization_save_def Let_def split: if_splits)
  moreover have "orgId g = organizationId" using g g2(1) cur by simp
  ultimately show "orgs d' = map (\<lambda>x. if orgId x = organizationId then g else x) (orgs d)"
    by simp
qed

theorem slug_unique_witness:
  "distinct (map slug (orgs demo_db)) \<and> distinct (map orgId (orgs demo_db)) \<and>
   slug_taken (orgs demo_db) 3 ''acme-corp'' \<and> \<not> slug_taken (orgs demo_db) 3 ''acme-corp-1'' \<and>
   baseSlug ''ACME  corp!'' = ''acme-corp'' \<and>
   (3::nat) \<notin> orgId ` set (orgs demo_db) \<and>
   organization_validate (new_organization 3 ''ACME  corp!'' 30) \<and>
   map slug (orgs (snd (register demo_auth register_acme_again 30 3 demo_db))) =
     [''acme-corp'', ''globex'', ''acme-corp-1''] \<and>
   distinct (map slug (orgs (snd (register demo_auth register_acme_again 30 3 demo_db)))) \<and>
   userOrganization acme_admin = Some 1 \<and>
   find (\<lambda>x. orgId x = 1) (orgs demo_db) = Some acme_org \<and>
   put_settings acme_admin [(''name'', JStr '' Globex '')] demo_db =
     (Json 200 (acme_org\<lparr>orgName := ''Globex'', slug := ''globex-1''\<rparr>),
      demo_db\<lparr>orgs := [acme_org\<lparr>orgName := ''Globex'', slug := ''globex-1''\<rparr>, globex_org]\<rparr>) \<and>
   slug (organization_pre_save (orgs demo_db) True
           (acme_org\<lparr>orgName := ''Globex'', slug := ''globex-1''\<rparr>)) = ''globex-1'' \<and>
   distinct (map slug (orgs (snd (put_settings acme_admin [(''name'', JStr '' Globex '')] demo_db))))"
proof -
  let ?g = "new_organization 3 ''ACME  corp!'' 30"
  let ?n = "[(''name'', JStr '' Globex '')]"
  let ?r = "acme_org\<lparr>orgName := ''Globex'', slug := ''globex-1''\<rparr>"
  have h1: "distinct (map slug (orgs demo_db)) \<and> distinct (map orgId (orgs demo_db))"
    by (simp add: demo_db_def acme_org_def globex_org_def)
  have b: "baseSlug ''ACME  corp!'' = ''acme-corp''" by code_simp
  have t: "trim ''ACME  corp!'' = ''ACME  corp!''" by code_simp
  have n: "orgName ?g = ''ACME  corp!''" "orgId ?g = 3" by (simp_all add: new_organization_def t)
  have h2: "slug_taken (orgs demo_db) 3 ''acme-corp''"
    by (simp add: slug_taken_def demo_db_def acme_org_def)
  have h3: "\<not> slug_taken (orgs demo_db) 3 ''acme-corp-1''"
    by (simp add: slug_taken_def demo_db_def acme_org_def globex_org_def)
  have h4: "(3::nat) \<notin> orgId ` set (orgs demo_db)"
    by (simp add: demo_db_def acme_org_def globex_org_def)
  have h5: "organization_validate ?g" by code_simp
  have h6: "userOrganization acme_admin = Some 1" by (simp add: acme_admin_def)
  have h7: "find (\<lambda>x. orgId x = 1) (orgs demo_db) = Some acme_org"
    by (simp add: demo_db_def acme_org_def)
  have h8: "put_settings acme_admin ?n demo_db = (Json 200 ?r, demo_db\<lparr>orgs := [?r, globex_org]\<rparr>)"
    by code_simp
  have h9: "orgName ?r \<noteq> orgName acme_org" by (simp add: acme_org_def)
  note u = slug_unique [of demo_db demo_auth register_acme_again 30 3 acme_admin ?n
      "orgs demo_db" ?g]
  from u h2 h3 have s: "slug (organization_pre_save (orgs demo_db) True ?g) = ''acme-corp-1''"
    by (simp add: n b)
  have r: "map slug (orgs (snd (register demo_auth register_acme_again 30 3 demo_db))) =
     [''acme-corp'', ''globex'', ''acme-corp-1'']"
    by code_simp
  from u h1 have d1: "distinct (map slug (orgs (snd (register demo_auth register_acme_again 30 3 demo_db))))"
    and d2: "distinct (map slug (orgs (snd (put_settings acme_admin ?n demo_db))))"
    by blast+
  from u h6 h7 h8 h9 have "slug ?r = slug (organization_pre_save (orgs demo_db) True ?r)"
    by blast
  then have re: "slug (organization_pre_save (orgs demo_db) True ?r) = ''globex-1''" by simp
  from h1 h2 h3 h4 h5 h6 h7 h8 b r d1 d2 re show ?thesis by simp
qed

text \<open>
  A name without a letter or digit has an empty \<open>generateSlug\<close>: the document fails the
  check that \<open>slug\<close> is required, the registration ends with the 500 reply after it has
  stored the user, and no organization is stored.
\<close>

lemma register_name_without_slug:
  "fst (register demo_auth
     [(''name'', JStr ''Zoe''), (''email'', JStr ''zoe@other.test''),
      (''password'', JStr ''hunter22''), (''organizationName'', JStr ''!!'')] 30 3 demo_db) =
     Message 500 ''Server error during registration'' \<and>
   orgs (snd (register demo_auth
     [(''name'', JStr ''Zoe''), (''email'', JStr ''zoe@other.test''),
      (''password'', JStr ''hunter22''), (''organizationName'', JStr ''!!'')] 30 3 demo_db)) =
     orgs demo_db \<and>
   map uid (users (snd (register demo_auth
     [(''name'', JStr ''Zoe''), (''email'', JStr ''zoe@other.test''),
      (''password'', JStr ''hunter22''), (''organizationName'', JStr ''!!'')] 30 3 demo_db))) =
     [10, 11, 12, 20, 30]"
  by code_simp

section \<open>Login failures\<close>

text \<open>
  Claim C9, at a failing input. The login validators only ask that \<open>password\<close> exists,
  so a body with \<open>password: null\<close> reaches the handler. With the email of an active
  account the password comparison throws on the value that is no string and the reply
  is 500; with an email of no account, or of an inactive one, the reply is 400 ``Invalid
  credentials''. The error reply tells whether an active account exists for the email.
\<close>

theorem login_reply_reveals_account:
  "login demo_auth [(''email'', JStr ''ada@acme.test''), (''password'', JNull)] 5000 demo_db =
     (Message 500 ''Server error during login'', demo_db) \<and>
   login demo_auth [(''email'', JStr ''nobody@acme.test''), (''password'', JNull)] 5000 demo_db =
     (Message 400 ''Invalid credentials'', demo_db) \<and>
   login demo_auth [(''email'', JStr ''carl@acme.test''), (''password'', JNull)] 5000 demo_db =
     (Message 400 ''Invalid credentials'', demo_db)"
  by code_simp

section \<open>Invite tokens\<close>

text \<open>
  Claim C10. A join that succeeds appends one new Member, of the organization of the
  placeholder user that holds the invite, to the users and changes nothing else: the
  placeholder, with its token and expiry, and every other user, organization and task
  are as before. So a second join with the same token, at a later time at which the
  placeholder's invite has not expired, with a body that passes the validators, an
  email no user holds and a fresh id, succeeds as well.
\<close>

theorem invite_not_consumed:
  assumes first: "join A b1 now1 i1 d = (Json c1 v1, d1)"
    and p: "find (invite_match (body_get b1 ''inviteToken'') now1) (users d) = Some p"
    and valid: "validate_join A b2 = []"
    and same: "body_get b2 ''inviteToken'' = body_get b1 ''inviteToken''"
    and later: "now1 \<le> now2"
    and unexpired: "invite_match (body_get b1 ''inviteToken'') now2 p"
    and unused: "find_email (normalizeEmail A (str_opt (body_get b2 ''email''))) (users d1) = None"
    and fresh: "i2 \<notin> uid ` set (users d1)"
  shows "(\<exists>u1. users d1 = users d @ [u1] \<and> uid u1 = i1 \<and> role u1 = Member \<and>
               userOrganization u1 = userOrganization p) \<and>
         orgs d1 = orgs d \<and> tasks d1 = tasks d \<and> p \<in> set (users d1) \<and>
         (\<exists>v2 d2. join A b2 now2 i2 d1 = (Json 201 v2, d2))"
proof -
  from join_success [OF first] p obtain g where
    g: "populate (userOrganization p) (orgs d) = Some g"
    and d1: "d1 = d\<lparr>users := users d @
                  [user_pre_save A True
                     (new_member i1 (trim (str_opt (body_get b1 ''name'')))
                        (normalizeEmail A (str_opt (body_get b1 ''email'')))
                        (str_opt (body_get b1 ''password'')) (orgId g))]\<rparr>"
    by auto
  have pin: "p \<in> set (users d)" using p by (auto simp: find_Some_iff)
  have frame: "(\<exists>u1. users d1 = users d @ [u1] \<and> uid u1 = i1 \<and> role u1 = Member \<and>
               userOrganization u1 = userOrganization p)"
    using populate_SomeD [OF g] by (simp add: d1)
  have "find (invite_match (body_get b1 ''inviteToken'') now2) (users d) = Some p"
    using p invite_match_earlier [OF later] unexpired by (rule find_stronger)
  then have f2: "find (invite_match (body_get b2 ''inviteToken'') now2) (users d1) = Some p"
    by (simp add: d1 same find_append_Some)
  have g2: "populate (userOrganization p) (orgs d1) = Some g" using g by (simp add: d1)
  let ?u = "new_member i2 (trim (str_opt (body_get b2 ''name'')))
              (normalizeEmail A (str_opt (body_get b2 ''email'')))
              (str_opt (body_get b2 ''password'')) (orgId g)"
  have "\<not> (\<exists>x \<in> set (users d1). uid x = i2 \<or> email x = email ?u)"
  proof
    assume "\<exists>x \<in> set (users d1). uid x = i2 \<or> email x = email ?u"
    then obtain x where x: "x \<in> set (users d1)" "uid x = i2 \<or> email x = email ?u" by blast
    from x(1) fresh have "uid x \<noteq> i2" by (auto simp: image_iff)
    moreover from unused x(1)
    have "email x \<noteq> schema_email (normalizeEmail A (str_opt (body_get b2 ''email'')))"
      by (auto simp: find_email_def find_None_iff)
    ultimately show False using x(2) by simp
  qed
  then have ins: "user_insert A ?u (users d1) = Some (users d1 @ [user_pre_save A True ?u])"
    by (auto simp: user_insert_def Let_def list_ex_iff)
  have "\<exists>v2 d2. join A b2 now2 i2 d1 = (Json 201 v2, d2)"
    using valid f2 unused g2 ins by (simp add: join_def Let_def)
  with frame pin show ?thesis by (simp add: d1)
qed

theorem invite_not_consumed_witness:
  "code (fst (join demo_auth join_carla 5000 31 demo_db)) = 201 \<and>
   find (invite_match (body_get join_carla ''inviteToken'') 5000) (users demo_db) =
     Some pending_invite \<and>
   validate_join demo_auth join_dora = [] \<and>
   invite_match (body_get join_carla ''inviteToken'') 6000 pending_invite \<and>
   pending_invite \<in> set (users (snd (join demo_auth join_carla 5000 31 demo_db))) \<and>
   map uid (users (snd (join demo_auth join_carla 5000 31 demo_db))) = [10, 11, 12, 20, 31] \<and>
   code (fst (join demo_auth join_dora 6000 32
               (snd (join demo_auth join_carla 5000 31 demo_db)))) = 201"
proof -
  let ?r = "join demo_auth join_carla 5000 31 demo_db"
  have c: "code (fst ?r) = 201" by code_simp
  have "\<exists>v. fst ?r = Json 201 v"
  proof (cases "fst ?r")
    case (Json n v)
    with c show ?thesis by simp
  next
    case (Message n m)
    then have "n = 400 \<or> n = 500" by (auto simp: join_def Let_def split: if_splits option.splits)
    with Message c show ?thesis by simp
  next
    case (Errors n fs)
    then have "n = 400" by (auto simp: join_def Let_def split: if_splits option.splits)
    with Errors c show ?thesis by simp
  qed
  then obtain v1 where first: "?r = (Json 201 v1, snd ?r)" by (metis prod.collapse)
  have p: "find (invite_match (body_get join_carla ''inviteToken'') 5000) (users demo_db) =
     Some pending_invite" by code_simp
  have valid: "validate_join demo_auth join_dora = []" by code_simp
  have same: "body_get join_dora ''inviteToken'' = body_get join_carla ''inviteToken''"
    by code_simp
  have later: "(5000::int) \<le> 6000" by simp
  have unexpired: "invite_match (body_get join_carla ''inviteToken'') 6000 pending_invite"
    by code_simp
  have unused: "find_email (normalizeEmail demo_auth (str_opt (body_get join_dora ''email'')))
      (users (snd ?r)) = None" by code_simp
  have ids: "map uid (users (snd ?r)) = [10, 11, 12, 20, 31]" by code_simp
  have "uid ` set (users (snd ?r)) = set (map uid (users (snd ?r)))" by simp
  then have fresh: "32 \<notin> uid ` set (users (snd ?r))" unfolding ids by simp
  from invite_not_consumed [OF first p valid same later unexpired unused fresh]
  obtain v2 d2 where "pending_invite \<in> set (users (snd ?r))"
    "join demo_auth join_dora 6000 32 (snd ?r) = (Json 201 v2, d2)" by blast
  with c p valid unexpired ids show ?thesis by simp
qed

end
